theory Spec2Isabelle
  imports Main "HOL-Library.Word" "HOL-Library.Code_Target_Numeral"
begin

unbundle bit_operations_syntax

section \<open>The output sink\<close>

text \<open>
  Modelled from the spec: the bounded output sink (\<^verbatim>\<open>BufferWriter\<close>,
  \<^verbatim>\<open>FixedBufferWriter\<close>; \<^verbatim>\<open>swoc/BufferWriter.h\<close> is not part of the sources).
  The spec gives its interface: it accepts written bytes, reports the remaining capacity and
  tracks a logical extent that may lie beyond the physical capacity.  The model keeps every
  byte that was offered (\<open>attempted\<close>) together with the capacity; the bytes that are
  physically stored are the first \<open>capacity\<close> of them (\<open>view\<close>).
\<close>

record BufferWriter =
  capacity :: nat
  attempted :: string

definition FixedBufferWriter :: "nat \<Rightarrow> BufferWriter" where
  "FixedBufferWriter cap = \<lparr>capacity = cap, attempted = []\<rparr>"

definition bw_write :: "BufferWriter \<Rightarrow> string \<Rightarrow> BufferWriter" where
  "bw_write w s = w\<lparr>attempted := attempted w @ s\<rparr>"

definition extent :: "BufferWriter \<Rightarrow> nat" where
  "extent w = length (attempted w)"

definition remaining :: "BufferWriter \<Rightarrow> nat" where
  "remaining w = capacity w - min (capacity w) (extent w)"

definition view :: "BufferWriter \<Rightarrow> string" where
  "view w = take (capacity w) (attempted w)"

section \<open>The format specifier\<close>

datatype Align = NONE | LEFT | RIGHT | CENTER | SIGN

text \<open>
  \<^verbatim>\<open>struct Spec\<close> of \<^verbatim>\<open>bwf_base.h\<close>.  The C++ fields are \<^verbatim>\<open>_fill\<close>, \<^verbatim>\<open>_sign\<close>, ...;
  an Isabelle name cannot start with an underscore, so each field is written \<open>s_fill\<close>,
  \<open>s_sign\<close>, ...  The unsigned widths are naturals, the signed fields integers.
\<close>

record Spec =
  s_fill :: char
  s_sign :: char
  s_align :: Align
  s_type :: char
  s_radix_lead_p :: bool
  s_min :: nat
  s_prec :: int
  s_max :: nat
  s_idx :: int
  s_name :: string
  s_ext :: string

definition DEFAULT_TYPE :: char where
  "DEFAULT_TYPE = CHR ''g''"

definition INVALID_TYPE :: char where
  "INVALID_TYPE = CHR 0x00"

definition LITERAL_TYPE :: char where
  "LITERAL_TYPE = CHR 0x22"

definition UINT_MAX :: nat where
  "UINT_MAX = 4294967295"

text \<open>The default member initialisers of \<^verbatim>\<open>Spec\<close> (\<^verbatim>\<open>Spec::DEFAULT\<close>).\<close>

definition DEFAULT :: Spec where
  "DEFAULT = \<lparr>s_fill = CHR '' '', s_sign = CHR ''-'', s_align = NONE, s_type = DEFAULT_TYPE,
     s_radix_lead_p = False, s_min = 0, s_prec = -1, s_max = UINT_MAX, s_idx = -1,
     s_name = [], s_ext = []\<rparr>"

subsection \<open>The character property table\<close>

definition ALIGN_MASK :: "8 word" where
  "ALIGN_MASK = 0x0F"

definition TYPE_CHAR :: "8 word" where
  "TYPE_CHAR = 0x10"

definition UPPER_TYPE_CHAR :: "8 word" where
  "UPPER_TYPE_CHAR = 0x20"

definition NUMERIC_TYPE_CHAR :: "8 word" where
  "NUMERIC_TYPE_CHAR = 0x40"

definition SIGN_CHAR :: "8 word" where
  "SIGN_CHAR = 0x80"

text \<open>
  Modelled from the spec: the contents of the 256-entry table \<^verbatim>\<open>Spec::_prop._data\<close>.  Its
  layout (the masks above) is in \<^verbatim>\<open>bwf_base.h\<close>; the constructor \<^verbatim>\<open>Property::Property\<close>
  that fills it is not part of the sources.  The spec says each entry encodes the alignment
  code, is-type-char, is-uppercase-variant, is-numeric-type and is-sign-char; the alignment
  characters are \<^verbatim>\<open><\<close>, \<^verbatim>\<open>>\<close>, \<^verbatim>\<open>^\<close>, \<^verbatim>\<open>=\<close>, the sign characters \<^verbatim>\<open>+\<close>, \<^verbatim>\<open>-\<close> and space,
  the numeric types the radix letters (binary, decimal, octal, hexadecimal), with the
  upper-case letter the upper-case variant.  \<open>prop_data c\<close> is the entry for the
  character with the code of \<open>c\<close>.
\<close>

definition prop_data :: "char \<Rightarrow> 8 word" where
  "prop_data c =
     (if c = CHR ''<'' then 1
      else if c = CHR ''>'' then 2
      else if c = CHR ''^'' then 3
      else if c = CHR ''='' then 4
      else if c = CHR ''+'' \<or> c = CHR ''-'' \<or> c = CHR '' '' then SIGN_CHAR
      else if c = CHR ''b'' \<or> c = CHR ''d'' \<or> c = CHR ''o'' \<or> c = CHR ''x''
        then TYPE_CHAR OR NUMERIC_TYPE_CHAR
      else if c = CHR ''B'' \<or> c = CHR ''X''
        then TYPE_CHAR OR NUMERIC_TYPE_CHAR OR UPPER_TYPE_CHAR
      else if c = CHR ''g'' \<or> c = CHR ''p'' \<or> c = CHR ''s'' then TYPE_CHAR
      else if c = CHR ''P'' \<or> c = CHR ''S'' then TYPE_CHAR OR UPPER_TYPE_CHAR
      else 0)"

text \<open>
  The accessors of \<^verbatim>\<open>bwf_base.h\<close> read \<^verbatim>\<open>_prop._data[static_cast<unsigned>(c)]\<close> for a
  \<^verbatim>\<open>char c\<close>.  Where \<^verbatim>\<open>char\<close> is a signed 8-bit type (as on x86-64, the platform taken
  here) a byte of \<^verbatim>\<open>0x80\<close> or more is a negative value, and its conversion to the 32-bit
  \<^verbatim>\<open>unsigned\<close> is \<open>2 ^ 32 - 256\<close> plus the byte: an index beyond the 256 entries.
  \<open>table_index\<close> is that conversion and \<open>prop_at\<close> the read of the array, which has no
  value outside the array; so every accessor has an optional result, and \<open>None\<close> is the
  read out of bounds.
\<close>

definition table_index :: "char \<Rightarrow> nat" where
  "table_index c = (if of_char c < (128 :: nat) then of_char c else 2 ^ 32 - 256 + of_char c)"

definition prop_at :: "nat \<Rightarrow> 8 word option" where
  "prop_at i = (if i < 0x100 then Some (prop_data (char_of i)) else None)"

text \<open>\<^verbatim>\<open>static_cast<Align>\<close> of an alignment code; the table holds the codes 0 to 4 only.\<close>

definition Align_of_code :: "8 word \<Rightarrow> Align" where
  "Align_of_code a =
     (if a = 1 then LEFT else if a = 2 then RIGHT else if a = 3 then CENTER
      else if a = 4 then SIGN else NONE)"

definition align_of :: "char \<Rightarrow> Align option" where
  "align_of c = map_option (\<lambda>d. Align_of_code (d AND ALIGN_MASK)) (prop_at (table_index c))"

definition is_sign :: "char \<Rightarrow> bool option" where
  "is_sign c = map_option (\<lambda>d. d AND SIGN_CHAR \<noteq> 0) (prop_at (table_index c))"

definition is_type :: "char \<Rightarrow> bool option" where
  "is_type c = map_option (\<lambda>d. d AND TYPE_CHAR \<noteq> 0) (prop_at (table_index c))"

definition is_upper_case_type :: "char \<Rightarrow> bool option" where
  "is_upper_case_type c = map_option (\<lambda>d. d AND UPPER_TYPE_CHAR \<noteq> 0) (prop_at (table_index c))"

definition is_numeric_type :: "char \<Rightarrow> bool option" where
  "is_numeric_type c = map_option (\<lambda>d. d AND NUMERIC_TYPE_CHAR \<noteq> 0) (prop_at (table_index c))"

definition has_numeric_type :: "Spec \<Rightarrow> bool option" where
  "has_numeric_type spec =
     map_option (\<lambda>d. d AND NUMERIC_TYPE_CHAR \<noteq> 0) (prop_at (table_index (s_type spec)))"

definition has_upper_case_type :: "Spec \<Rightarrow> bool option" where
  "has_upper_case_type spec =
     map_option (\<lambda>d. d AND UPPER_TYPE_CHAR \<noteq> 0) (prop_at (table_index (s_type spec)))"

definition has_pointer_type :: "Spec \<Rightarrow> bool" where
  "has_pointer_type spec = (s_type spec = CHR ''p'' \<or> s_type spec = CHR ''P'')"

definition has_valid_type :: "Spec \<Rightarrow> bool" where
  "has_valid_type spec = (s_type spec \<noteq> INVALID_TYPE)"

text \<open>
  Modelled from the spec: what an entry of the table says of its character.  The functions
  of \<^verbatim>\<open>bwf_base.h\<close> that are declared without a body (the alignment renderer, the integer
  renderer, the specifier parser) classify characters by the table, as the spec says
  (classifier lookups are table-driven); their models read the entry of the character.
\<close>

definition sign_entry :: "char \<Rightarrow> bool" where
  "sign_entry c = (prop_data c AND SIGN_CHAR \<noteq> 0)"

definition type_entry :: "char \<Rightarrow> bool" where
  "type_entry c = (prop_data c AND TYPE_CHAR \<noteq> 0)"

definition upper_entry :: "char \<Rightarrow> bool" where
  "upper_entry c = (prop_data c AND UPPER_TYPE_CHAR \<noteq> 0)"

definition align_entry :: "char \<Rightarrow> Align" where
  "align_entry c = Align_of_code (prop_data c AND ALIGN_MASK)"

section \<open>Alignment and padding\<close>

text \<open>
  Modelled from the spec: the alignment renderer (\<^verbatim>\<open>Adjust_Alignment\<close> is declared in
  \<^verbatim>\<open>bwf_base.h\<close>, its body is not part of the sources).  Section 4.5 of the spec: with
  \<open>w\<close> the length of the raw bytes, if \<open>w \<ge> min\<close> the bytes are copied, clipped to the
  maximum width; otherwise they are padded with the fill character: Left is content then
  fill, Right is fill then content, Center puts half of the fill (rounded down) first,
  SignAligned emits a leading sign character first, then the fill, then the rest.
  The spec gives no rule for alignment None and for SignAligned content without a sign; the
  model pads these on the right and on the left respectively.
\<close>

definition render_aligned :: "Spec \<Rightarrow> string \<Rightarrow> string" where
  "render_aligned spec raw =
     (let w = length raw; mn = s_min spec; pad = replicate (mn - w) (s_fill spec) in
      if mn \<le> w then take (s_max spec) raw
      else (case s_align spec of
              LEFT \<Rightarrow> raw @ pad
            | RIGHT \<Rightarrow> pad @ raw
            | CENTER \<Rightarrow> replicate ((mn - w) div 2) (s_fill spec) @ raw
                          @ replicate ((mn - w) - (mn - w) div 2) (s_fill spec)
            | SIGN \<Rightarrow> (case raw of
                          [] \<Rightarrow> pad
                        | c # rest \<Rightarrow> if sign_entry c then c # pad @ rest else pad @ raw)
            | NONE \<Rightarrow> raw @ pad))"

text \<open>
  \<^verbatim>\<open>Adjust_Alignment(*this, spec, lw)\<close> as \<^verbatim>\<open>print_nv\<close> calls it: the content rendered
  into the scratch writer \<open>lw\<close> reaches the destination through the alignment renderer.
  The scratch writer reports its logical extent, so the raw bytes are its \<open>attempted\<close>.
\<close>

definition Adjust_Alignment :: "BufferWriter \<Rightarrow> Spec \<Rightarrow> BufferWriter \<Rightarrow> BufferWriter" where
  "Adjust_Alignment w spec lw = bw_write w (render_aligned spec (attempted lw))"

section \<open>Integer conversion\<close>

definition digit_of :: "bool \<Rightarrow> nat \<Rightarrow> char" where
  "digit_of upper d = (if upper then ''0123456789ABCDEF'' ! d else ''0123456789abcdef'' ! d)"

function to_radix :: "nat \<Rightarrow> bool \<Rightarrow> nat \<Rightarrow> string" where
  "to_radix r upper n =
     (if r < 2 \<or> n < r then [digit_of upper n]
      else to_radix r upper (n div r) @ [digit_of upper (n mod r)])"
  by pat_completeness auto
termination
  by (relation "measure (\<lambda>(r, upper, n). n)") auto

declare to_radix.simps [simp del]

text \<open>
  Modelled from the spec: \<^verbatim>\<open>Format_Integer\<close> (declared in \<^verbatim>\<open>bwf_base.h\<close>, body not part
  of the sources).  The spec's integer renderer: the magnitude in the radix the type
  character selects (hexadecimal for \<^verbatim>\<open>x\<close>/\<^verbatim>\<open>X\<close>, upper-case digits for the upper-case
  variant, octal, binary, decimal otherwise), an optional radix lead such as \<^verbatim>\<open>0x\<close>, the
  sign (\<^verbatim>\<open>-\<close> for a negative value, otherwise the sign style of the specifier unless it is
  \<^verbatim>\<open>-\<close>), passed through the alignment renderer of section 4.5.
\<close>

definition radix_of :: "char \<Rightarrow> nat" where
  "radix_of t =
     (if t = CHR ''x'' \<or> t = CHR ''X'' then 16
      else if t = CHR ''o'' then 8
      else if t = CHR ''b'' \<or> t = CHR ''B'' then 2
      else 10)"

definition radix_lead :: "char \<Rightarrow> string" where
  "radix_lead t =
     (if t = CHR ''x'' \<or> t = CHR ''X'' \<or> t = CHR ''b'' \<or> t = CHR ''B'' then [CHR ''0'', t]
      else if t = CHR ''o'' then ''0''
      else [])"

definition integer_text :: "Spec \<Rightarrow> nat \<Rightarrow> bool \<Rightarrow> string" where
  "integer_text spec n negative_p =
     (if negative_p then ''-'' else if s_sign spec \<noteq> CHR ''-'' then [s_sign spec] else [])
     @ (if s_radix_lead_p spec then radix_lead (s_type spec) else [])
     @ to_radix (radix_of (s_type spec)) (upper_entry (s_type spec)) n"

definition Format_Integer :: "BufferWriter \<Rightarrow> Spec \<Rightarrow> nat \<Rightarrow> bool \<Rightarrow> BufferWriter" where
  "Format_Integer w spec n negative_p = bw_write w (render_aligned spec (integer_text spec n negative_p))"

section \<open>Formatters of the basic value types\<close>

text \<open>
  The overloads of \<^verbatim>\<open>bwformat\<close> in \<^verbatim>\<open>bwf_base.h\<close>, one constant per overload.  A raw
  pointer is its address and an unsigned argument its value, the \<^verbatim>\<open>uintmax_t\<close> that
  \<^verbatim>\<open>Format_Integer\<close> receives.
\<close>

definition bwformat_ptr :: "BufferWriter \<Rightarrow> Spec \<Rightarrow> nat \<Rightarrow> BufferWriter" where
  "bwformat_ptr w spec ptr =
     (let ptr_spec = spec\<lparr>s_radix_lead_p := True\<rparr>;
          ptr_spec = (if s_type ptr_spec = DEFAULT_TYPE \<or> s_type ptr_spec = CHR ''p''
                      then ptr_spec\<lparr>s_type := CHR ''x''\<rparr>
                      else if s_type ptr_spec = CHR ''P'' then ptr_spec\<lparr>s_type := CHR ''X''\<rparr>
                      else ptr_spec)
      in Format_Integer w ptr_spec ptr False)"

text \<open>
  Modelled from the spec: \<^verbatim>\<open>bwformat(BufferWriter &, Spec const &, std::string_view)\<close>
  is declared in \<^verbatim>\<open>bwf_base.h\<close> without a body; the spec lists raw text among the default
  renderers, and the model writes the text as it is.
\<close>

definition bwformat_sv :: "BufferWriter \<Rightarrow> Spec \<Rightarrow> string \<Rightarrow> BufferWriter" where
  "bwformat_sv w spec sv = bw_write w sv"

text \<open>A \<^verbatim>\<open>const char *\<close> argument: its address and the text it points to.\<close>

definition bwformat_cstr :: "BufferWriter \<Rightarrow> Spec \<Rightarrow> nat \<Rightarrow> string \<Rightarrow> BufferWriter" where
  "bwformat_cstr w spec p v =
     (if s_type spec = CHR ''x'' \<or> s_type spec = CHR ''X'' then bwformat_ptr w spec p
      else bwformat_sv w spec v)"

definition bwformat_unsigned :: "BufferWriter \<Rightarrow> Spec \<Rightarrow> nat \<Rightarrow> BufferWriter" where
  "bwformat_unsigned w spec i = Format_Integer w spec i False"

text \<open>
  The overload for a signed integer type \<^verbatim>\<open>I\<close>.  The value is a word read as a two's
  complement number.  The negation \<^verbatim>\<open>-i\<close> is taken in the type of its operand, which
  is \<^verbatim>\<open>int\<close> (32 bits) for a narrower \<^verbatim>\<open>I\<close> and \<^verbatim>\<open>I\<close> itself otherwise; there the
  least value is its own negation.  The result is then converted to \<^verbatim>\<open>uintmax_t\<close>,
  which extends the sign: for the \<^verbatim>\<open>int\<close> \<open>- 2 ^ 31\<close> the magnitude that reaches
  \<^verbatim>\<open>Format_Integer\<close> is \<open>2 ^ 64 - 2 ^ 31\<close>.
\<close>

definition negated :: "'a::len word \<Rightarrow> 64 word" where
  "negated i =
     (if LENGTH('a) < 32 then scast (- (scast i :: 32 word)) else scast (- i))"

definition bwformat_signed :: "BufferWriter \<Rightarrow> Spec \<Rightarrow> 'a::len word \<Rightarrow> BufferWriter" where
  "bwformat_signed w spec i =
     (if sint i < 0 then Format_Integer w spec (unat (negated i)) True
      else Format_Integer w spec (unat (scast i :: 64 word)) False)"

definition bwformat_char :: "BufferWriter \<Rightarrow> Spec \<Rightarrow> char \<Rightarrow> BufferWriter" where
  "bwformat_char w spec c = bw_write w [c]"

definition bwformat_bool :: "BufferWriter \<Rightarrow> Spec \<Rightarrow> bool \<Rightarrow> BufferWriter" where
  "bwformat_bool w spec f =
     (if CHR ''s'' = s_type spec then bw_write w (if f then ''true'' else ''false'')
      else if CHR ''S'' = s_type spec then bw_write w (if f then ''TRUE'' else ''FALSE'')
      else Format_Integer w spec (if f then 1 else 0) False)"

section \<open>Rendering a template: \<^verbatim>\<open>print_nv\<close>\<close>

text \<open>
  A formatter of the array built by \<^verbatim>\<open>Get_Arg_Formatter_Array\<close>: the type of the argument
  is erased, the argument tuple is closed over.  A bound name resolver has the same shape.
  Formatters of the sources read the property table and can fail there, so the result of
  a formatter is optional: \<open>None\<close> is a call that does not return.
\<close>

type_synonym Formatter = "BufferWriter \<Rightarrow> Spec \<Rightarrow> BufferWriter option"

type_synonym BoundNames = "BufferWriter \<Rightarrow> Spec \<Rightarrow> BufferWriter option"

text \<open>
  Modelled from the spec: \<^verbatim>\<open>Err_Bad_Arg_Index\<close> is declared in \<^verbatim>\<open>bwf_base.h\<close>, its body
  is not part of the sources.  The spec gives the diagnostic literal
  \<^verbatim>\<open>{~BAD INDEX <i> of <N>~}\<close>, naming the bad index and the argument count; the model
  writes both in decimal.  \<^verbatim>\<open>print_nv\<close> calls it with an index that is not negative.
\<close>

definition Err_Bad_Arg_Index :: "BufferWriter \<Rightarrow> int \<Rightarrow> nat \<Rightarrow> BufferWriter" where
  "Err_Bad_Arg_Index w i n =
     bw_write w (''{~BAD INDEX '' @ to_radix 10 False (nat i) @ '' of '' @ to_radix 10 False n @ ''~}'')"

text \<open>
  The parser functor \<^verbatim>\<open>F\<close> of \<^verbatim>\<open>print_nv\<close> is a parameter of the template function.  It
  is called until it returns \<^verbatim>\<open>false\<close> and sets the literal and the specifier at each
  call; the model takes the finite sequence of (literal, specifier) pairs it yields.

  One round of the \<^verbatim>\<open>while\<close> loop: the state is the destination and \<^verbatim>\<open>arg_idx\<close>.  The
  round has no result when the formatter or the resolver it calls has none.
\<close>

definition print_nv_step ::
  "BoundNames \<Rightarrow> Formatter list \<Rightarrow> BufferWriter \<times> int \<Rightarrow> string \<times> Spec
     \<Rightarrow> (BufferWriter \<times> int) option" where
  "print_nv_step names fa st tok =
     (case st of (w, arg_idx) \<Rightarrow>
      case tok of (lit_v, spec0) \<Rightarrow>
        let N = int (length fa);
            w = (if length lit_v \<noteq> 0 then bw_write w lit_v else w)
        in if has_valid_type spec0 then
             let width = remaining w;
                 width = (if s_max spec0 < width then s_max spec0 else width);
                 lw = FixedBufferWriter width;
                 spec = (if length (s_name spec0) = 0 then spec0\<lparr>s_idx := arg_idx\<rparr> else spec0)
             in (case (if 0 \<le> s_idx spec then
                         map_option (\<lambda>lw. (lw, arg_idx + 1))
                           (if s_idx spec < N then (fa ! nat (s_idx spec)) lw spec
                            else Some (Err_Bad_Arg_Index lw (s_idx spec) (nat N)))
                       else if length (s_name spec) \<noteq> 0
                         then map_option (\<lambda>lw. (lw, arg_idx)) (names lw spec)
                       else Some (lw, arg_idx)) of
                   None \<Rightarrow> None
                 | Some (lw, arg_idx) \<Rightarrow>
                     Some ((if extent lw \<noteq> 0 then Adjust_Alignment w spec lw else w), arg_idx))
           else Some (w, arg_idx))"

fun print_nv_loop ::
  "BoundNames \<Rightarrow> Formatter list \<Rightarrow> BufferWriter \<times> int \<Rightarrow> (string \<times> Spec) list
     \<Rightarrow> (BufferWriter \<times> int) option" where
  "print_nv_loop names fa st [] = Some st"
| "print_nv_loop names fa st (tok # f) =
     (case print_nv_step names fa st tok of
        None \<Rightarrow> None
      | Some st' \<Rightarrow> print_nv_loop names fa st' f)"

definition print_nv ::
  "BufferWriter \<Rightarrow> BoundNames \<Rightarrow> (string \<times> Spec) list \<Rightarrow> Formatter list \<Rightarrow> BufferWriter option" where
  "print_nv w names f fa = map_option fst (print_nv_loop names fa (w, 0) f)"

section \<open>The template tokenizer and the specifier grammar\<close>

definition is_digit :: "char \<Rightarrow> bool" where
  "is_digit c = (c \<in> set ''0123456789'')"

definition to_number :: "string \<Rightarrow> nat" where
  "to_number ds = foldl (\<lambda>a c. 10 * a + (of_char c - 48)) 0 ds"

text \<open>
  Modelled from the spec: the specifier parser \<^verbatim>\<open>Spec::Spec(TextView)\<close> is declared in
  \<^verbatim>\<open>bwf_base.h\<close>, its body is not part of the sources.  Section 4.1 and section 6 of the
  spec: the body is \<^verbatim>\<open>[index-or-name][:spec-fields]\<close>, the fields are, in order and each
  optional, an alignment mark with an optional fill character before it, then
  \<^verbatim>\<open>[sign][#][min][.precision][,max][type][:extension]\<close>.  The text
  before the first colon is the name; when it consists of digits only it is the positional
  index (\<^verbatim>\<open>print_nv\<close> takes a specifier with an empty name as one without an index of its
  own, so the digits stay in the name).  An unknown type character marks the specifier
  invalid-type.  The characters of the fields are classified by their entries in the
  property table.
\<close>

fun parse_align :: "Spec \<times> string \<Rightarrow> Spec \<times> string" where
  "parse_align (spec, c1 # c2 # r) =
     (if align_entry c2 \<noteq> NONE then (spec\<lparr>s_fill := c1, s_align := align_entry c2\<rparr>, r)
      else if align_entry c1 \<noteq> NONE then (spec\<lparr>s_align := align_entry c1\<rparr>, c2 # r)
      else (spec, c1 # c2 # r))"
| "parse_align (spec, [c1]) =
     (if align_entry c1 \<noteq> NONE then (spec\<lparr>s_align := align_entry c1\<rparr>, []) else (spec, [c1]))"
| "parse_align (spec, []) = (spec, [])"

fun parse_sign :: "Spec \<times> string \<Rightarrow> Spec \<times> string" where
  "parse_sign (spec, c # r) = (if sign_entry c then (spec\<lparr>s_sign := c\<rparr>, r) else (spec, c # r))"
| "parse_sign (spec, []) = (spec, [])"

fun parse_radix :: "Spec \<times> string \<Rightarrow> Spec \<times> string" where
  "parse_radix (spec, c # r) =
     (if c = CHR ''#'' then (spec\<lparr>s_radix_lead_p := True\<rparr>, r) else (spec, c # r))"
| "parse_radix (spec, []) = (spec, [])"

fun parse_min :: "Spec \<times> string \<Rightarrow> Spec \<times> string" where
  "parse_min (spec, f) =
     (let ds = takeWhile is_digit f in
      if ds = [] then (spec, f) else (spec\<lparr>s_min := to_number ds\<rparr>, dropWhile is_digit f))"

fun parse_prec :: "Spec \<times> string \<Rightarrow> Spec \<times> string" where
  "parse_prec (spec, c # r) =
     (if c = CHR ''.'' then (spec\<lparr>s_prec := int (to_number (takeWhile is_digit r))\<rparr>, dropWhile is_digit r)
      else (spec, c # r))"
| "parse_prec (spec, []) = (spec, [])"

fun parse_max :: "Spec \<times> string \<Rightarrow> Spec \<times> string" where
  "parse_max (spec, c # r) =
     (if c = CHR '','' then (spec\<lparr>s_max := to_number (takeWhile is_digit r)\<rparr>, dropWhile is_digit r)
      else (spec, c # r))"
| "parse_max (spec, []) = (spec, [])"

fun parse_type :: "Spec \<times> string \<Rightarrow> Spec" where
  "parse_type (spec, []) = spec"
| "parse_type (spec, c # r) =
     (if type_entry c \<and> r = [] then spec\<lparr>s_type := c\<rparr> else spec\<lparr>s_type := INVALID_TYPE\<rparr>)"

definition Spec_parse :: "string \<Rightarrow> Spec" where
  "Spec_parse fmt =
     (let name = takeWhile (\<lambda>c. c \<noteq> CHR '':'') fmt;
          rest = drop (Suc (length name)) fmt;
          fields = takeWhile (\<lambda>c. c \<noteq> CHR '':'') rest;
          ext = drop (Suc (length fields)) rest;
          spec = DEFAULT\<lparr>s_name := name, s_ext := ext\<rparr>;
          spec = (if name \<noteq> [] \<and> list_all is_digit name
                  then spec\<lparr>s_idx := int (to_number name)\<rparr> else spec)
      in parse_type (parse_max (parse_prec (parse_min (parse_radix (parse_sign
           (parse_align (spec, fields))))))))"

text \<open>The specifier a parser yields when a literal has no specifier after it.\<close>

definition NO_SPEC :: Spec where
  "NO_SPEC = DEFAULT\<lparr>s_type := INVALID_TYPE\<rparr>"

text \<open>
  Modelled from the spec: the tokenizer \<^verbatim>\<open>Format::parse\<close> is declared in \<^verbatim>\<open>bwf_base.h\<close>,
  its body is not part of the sources.  Section 4.2 of the spec: \<^verbatim>\<open>{{\<close> and \<^verbatim>\<open>}}\<close> yield a
  literal brace, \<^verbatim>\<open>{...}\<close> yields a specifier body (possibly empty), an unbalanced \<^verbatim>\<open>{\<close> is
  literal text from the opening brace to the end of the input.  The arguments are the rest
  of the template, the literal collected so far and the specifier body collected so far
  (\<open>None\<close> outside a specifier).
\<close>

fun tokenize :: "string \<Rightarrow> string \<Rightarrow> string option \<Rightarrow> (string \<times> Spec) list" where
  "tokenize [] lit None = (if lit = [] then [] else [(lit, NO_SPEC)])"
| "tokenize [] lit (Some body) = [(lit @ CHR ''{'' # body, NO_SPEC)]"
| "tokenize (c # cs) lit (Some body) =
     (if c = CHR ''}'' then (lit, Spec_parse body) # tokenize cs [] None
      else tokenize cs lit (Some (body @ [c])))"
| "tokenize (c # cs) lit None =
     (if c = CHR ''{'' then
        (case cs of
           [] \<Rightarrow> tokenize cs lit (Some [])
         | c' # cs' \<Rightarrow> if c' = CHR ''{'' then tokenize cs' (lit @ ''{'') None
                        else tokenize cs lit (Some []))
      else if c = CHR ''}'' then
        (case cs of
           [] \<Rightarrow> tokenize cs (lit @ ''}'') None
         | c' # cs' \<Rightarrow> if c' = CHR ''}'' then tokenize cs' (lit @ ''}'') None
                        else tokenize cs (lit @ ''}'') None)
      else tokenize cs (lit @ [c]) None)"

text \<open>
  \<^verbatim>\<open>BufferWriter::print(fmt, args...)\<close> forwards to \<^verbatim>\<open>print_nv\<close> with the parser of the
  template text; the registry of names it renders against is a parameter here.
\<close>

definition print ::
  "BufferWriter \<Rightarrow> BoundNames \<Rightarrow> string \<Rightarrow> Formatter list \<Rightarrow> BufferWriter option" where
  "print w names fmt fa = print_nv w names (tokenize fmt [] None) fa"

section \<open>Name registries and bound resolvers\<close>

text \<open>
  A resolver that knows no name.  \<^verbatim>\<open>err_invalid_name\<close> prints through
  \<^verbatim>\<open>BufferWriter::print\<close>; its template has no named specifier, so whichever registry that
  call renders against is never consulted.
\<close>

definition no_names :: BoundNames where
  "no_names w spec = Some w"

definition err_invalid_name :: "BufferWriter \<Rightarrow> Spec \<Rightarrow> BufferWriter option" where
  "err_invalid_name w spec =
     print w no_names ''{{~{}~}}'' [\<lambda>lw sp. Some (bwformat_sv lw sp (s_name spec))]"

text \<open>
  \<^verbatim>\<open>GlobalNames::Binding::operator()\<close>: the map of the registry goes from a name to a
  generator, which writes to the output it is given.
\<close>

definition GlobalNames_Binding ::
  "(string \<rightharpoonup> (BufferWriter \<Rightarrow> Spec \<Rightarrow> BufferWriter option)) \<Rightarrow> BufferWriter \<Rightarrow> Spec
     \<Rightarrow> BufferWriter option" where
  "GlobalNames_Binding mp w spec =
     (if s_name spec \<noteq> [] then
        (case mp (s_name spec) of
           Some generator \<Rightarrow> generator w spec
         | None \<Rightarrow> err_invalid_name w spec)
      else Some w)"

text \<open>\<^verbatim>\<open>ContextNames<T>::Binding::operator()\<close>: the generators also receive the bound context.\<close>

definition ContextNames_Binding ::
  "(string \<rightharpoonup> (BufferWriter \<Rightarrow> Spec \<Rightarrow> 'ctx \<Rightarrow> BufferWriter option)) \<Rightarrow> 'ctx \<Rightarrow> BufferWriter \<Rightarrow> Spec
     \<Rightarrow> BufferWriter option" where
  "ContextNames_Binding mp ctx w spec =
     (if s_name spec \<noteq> [] then
        (case mp (s_name spec) of
           Some generator \<Rightarrow> generator w spec ctx
         | None \<Rightarrow> err_invalid_name w spec)
      else Some w)"

section \<open>Network address formatters\<close>

text \<open>
  Modelled from the spec: the address classes of \<^verbatim>\<open>swoc_ip.h\<close> (\<^verbatim>\<open>IP4Addr\<close>,
  \<^verbatim>\<open>IPEndpoint\<close>) and the system types \<^verbatim>\<open>in6_addr\<close> and \<^verbatim>\<open>sockaddr\<close> are not part of
  the sources; the model keeps what the formatters of \<^verbatim>\<open>bwf_ip.h\<close> read.  An \<^verbatim>\<open>IP4Addr\<close>
  is the value \<^verbatim>\<open>host_order()\<close> returns; an \<^verbatim>\<open>in6_addr\<close> is its sixteen bytes
  \<^verbatim>\<open>s6_addr\<close> in network order; a \<^verbatim>\<open>sockaddr\<close> is its family (the 16-bit
  \<^verbatim>\<open>sa_family_t\<close>) with the members that \<^verbatim>\<open>sockaddr_in\<close> and \<^verbatim>\<open>sockaddr_in6\<close> overlay
  on it, each read under its own family only, the IPv4 address by its host-order value
  and the port by the 16-bit value \<^verbatim>\<open>IPEndpoint::host_order_port\<close> returns.  The family
  constants have the values of the Linux headers.  \<^verbatim>\<open>IPEndpoint::family_name\<close> is taken
  to be the function \<^verbatim>\<open>family_name\<close> that the same source file defines.
\<close>

datatype IP4Addr = IP4Addr (host_order: "32 word")

type_synonym in6_addr = "8 word list"

record sockaddr =
  sa_family :: "16 word"
  host_order_port :: "16 word"
  sin_addr :: "32 word"
  sin6_addr :: in6_addr

definition AF_UNSPEC :: "16 word" where
  "AF_UNSPEC = 0"

definition AF_UNIX :: "16 word" where
  "AF_UNIX = 1"

definition AF_INET :: "16 word" where
  "AF_INET = 2"

definition AF_INET6 :: "16 word" where
  "AF_INET6 = 10"

definition family_name :: "16 word \<Rightarrow> string" where
  "family_name family =
     (if family = AF_INET then ''ipv4''
      else if family = AF_INET6 then ''ipv6''
      else if family = AF_UNIX then ''unix''
      else if family = AF_UNSPEC then ''unspec''
      else ''unknown'')"

text \<open>
  The block that opens the IPv4 and the IPv6 formatter alike: an extension that starts with
  \<^verbatim>\<open>=\<close>, or with a character followed by \<^verbatim>\<open>=\<close>, asks for aligned elements and sets
  the fill of \<^verbatim>\<open>local_spec\<close>.  The result is (\<^verbatim>\<open>align_p\<close>, \<^verbatim>\<open>local_spec\<close>).
\<close>

definition ext_alignment :: "Spec \<Rightarrow> bool \<times> Spec" where
  "ext_alignment spec =
     (if length (s_ext spec) \<noteq> 0 then
        (if hd (s_ext spec) = CHR ''='' then (True, spec\<lparr>s_fill := CHR ''0''\<rparr>)
         else if length (s_ext spec) > 1 \<and> s_ext spec ! 1 = CHR ''=''
           then (True, spec\<lparr>s_fill := s_ext spec ! 0\<rparr>)
         else (False, spec))
      else (False, spec))"

definition bwformat_IP4Addr :: "BufferWriter \<Rightarrow> Spec \<Rightarrow> IP4Addr \<Rightarrow> BufferWriter" where
  "bwformat_IP4Addr w spec addr =
     (let host = host_order addr;
          (align_p, local_spec) = ext_alignment spec;
          local_spec = (if align_p then local_spec\<lparr>s_min := 3, s_align := RIGHT\<rparr>
                        else local_spec\<lparr>s_min := 0\<rparr>);
          w = bwformat_unsigned w local_spec (unat (ucast (drop_bit 24 host AND 0xFF) :: 8 word));
          w = bw_write w ''.'';
          w = bwformat_unsigned w local_spec (unat (ucast (drop_bit 16 host AND 0xFF) :: 8 word));
          w = bw_write w ''.'';
          w = bwformat_unsigned w local_spec (unat (ucast (drop_bit 8 host AND 0xFF) :: 8 word));
          w = bw_write w ''.'';
          w = bwformat_unsigned w local_spec (unat (ucast (host AND 0xFF) :: 8 word))
      in w)"

text \<open>
  The zero compression scan of the IPv6 formatter.  \<open>spot\<close> is the index of a two-byte
  group; \<^verbatim>\<open>0 == *spot\<close> reads the group as one 16-bit value, which is zero exactly when
  both bytes are.  \<^verbatim>\<open>lower\<close> and \<^verbatim>\<open>upper\<close> are assigned together, so the best range is
  one optional pair, \<open>None\<close> when both are null; \<^verbatim>\<open>current\<close> is the optional start of the
  run of zero groups the scan is in.
\<close>

definition quad_is_zero :: "in6_addr \<Rightarrow> nat \<Rightarrow> bool" where
  "quad_is_zero addr spot = (addr ! (2 * spot) = 0 \<and> addr ! (2 * spot + 1) = 0)"

definition zero_scan_step ::
  "in6_addr \<Rightarrow> (nat \<times> nat) option \<times> nat option \<Rightarrow> nat \<Rightarrow> (nat \<times> nat) option \<times> nat option" where
  "zero_scan_step addr st spot =
     (case st of (best, current) \<Rightarrow>
        if quad_is_zero addr spot then
          (case current of
             Some cur \<Rightarrow>
               (case best of
                  None \<Rightarrow> (Some (cur, spot), current)
                | Some (lower, upper) \<Rightarrow>
                    if upper - lower < spot - cur then (Some (cur, spot), current)
                    else (best, current))
           | None \<Rightarrow> (best, Some spot))
        else (best, None))"

definition zero_scan :: "in6_addr \<Rightarrow> (nat \<times> nat) option" where
  "zero_scan addr = fst (foldl (zero_scan_step addr) (None, None) [0..<8])"

text \<open>
  One round of the output loop, for the group at index \<open>i\<close> (\<^verbatim>\<open>ptr\<close> is
  \<^verbatim>\<open>addr.s6_addr + 2 * i\<close>).  With both range pointers null the test
  \<^verbatim>\<open>lower <= ptr && ptr <= upper\<close> is false.
\<close>

definition quad_value :: "in6_addr \<Rightarrow> nat \<Rightarrow> 16 word" where
  "quad_value addr i = push_bit 8 (ucast (addr ! (2 * i))) + ucast (addr ! (2 * i + 1))"

definition in6_output_step ::
  "in6_addr \<Rightarrow> Spec \<Rightarrow> (nat \<times> nat) option \<Rightarrow> BufferWriter \<Rightarrow> nat \<Rightarrow> BufferWriter" where
  "in6_output_step addr local_spec best w i =
     (if (case best of None \<Rightarrow> False | Some (lower, upper) \<Rightarrow> lower \<le> i \<and> i \<le> upper) then
        (let w = (if i = 0 then bw_write w '':'' else w) in
         if (case best of None \<Rightarrow> False | Some (lower, upper) \<Rightarrow> i = upper)
         then bw_write w '':'' else w)
      else
        (let f = quad_value addr i;
             w = bwformat_unsigned w local_spec (unat f)
         in if i \<noteq> 7 then bw_write w '':'' else w))"

text \<open>
  The IPv6 formatter.  The read of the property table by \<^verbatim>\<open>has_numeric_type\<close> comes
  after the scan and before the output loop; where it is out of bounds the call has no
  result.
\<close>

definition bwformat_in6_addr :: "BufferWriter \<Rightarrow> Spec \<Rightarrow> in6_addr \<Rightarrow> BufferWriter option" where
  "bwformat_in6_addr w spec addr =
     (let (align_p, local_spec) = ext_alignment spec;
          (local_spec, best) =
            (if align_p then (local_spec\<lparr>s_min := 4, s_align := RIGHT\<rparr>, None)
             else (local_spec\<lparr>s_min := 0\<rparr>, zero_scan addr))
      in case has_numeric_type local_spec of
           None \<Rightarrow> None
         | Some numeric_p \<Rightarrow>
             let local_spec = (if \<not> numeric_p then local_spec\<lparr>s_type := CHR ''x''\<rparr>
                               else local_spec)
             in Some (foldl (in6_output_step addr local_spec best) w [0..<8]))"

text \<open>
  The flag loop of the endpoint formatter: the state is
  (\<^verbatim>\<open>addr_p\<close>, \<^verbatim>\<open>port_p\<close>, \<^verbatim>\<open>family_p\<close>).
\<close>

definition sockaddr_flag :: "bool \<times> bool \<times> bool \<Rightarrow> char \<Rightarrow> bool \<times> bool \<times> bool" where
  "sockaddr_flag st c =
     (case st of (addr_p, port_p, family_p) \<Rightarrow>
        if c = CHR ''a'' \<or> c = CHR ''A'' then (True, port_p, family_p)
        else if c = CHR ''p'' \<or> c = CHR ''P'' then (addr_p, True, family_p)
        else if c = CHR ''f'' \<or> c = CHR ''F'' then (addr_p, port_p, True)
        else (addr_p, port_p, family_p))"

text \<open>
  \<^verbatim>\<open>bwformat(BufferWriter &, Spec const &, sockaddr const *)\<close>, block by block.  First
  the numeric fill prefix of the extension, which is removed from the extension of
  \<^verbatim>\<open>local_spec\<close>: the result is
  (\<^verbatim>\<open>local_numeric_fill_p\<close>, \<^verbatim>\<open>local_numeric_fill_char\<close>, \<^verbatim>\<open>local_spec\<close>).
\<close>

definition sockaddr_fill_prefix :: "Spec \<Rightarrow> bool \<times> char \<times> Spec" where
  "sockaddr_fill_prefix spec =
     (if length (s_ext spec) \<noteq> 0 then
        (if hd (s_ext spec) = CHR ''=''
           then (True, CHR ''0'', spec\<lparr>s_ext := drop 1 (s_ext spec)\<rparr>)
         else if length (s_ext spec) > 1 \<and> s_ext spec ! 1 = CHR ''=''
           then (True, hd (s_ext spec), spec\<lparr>s_ext := drop 2 (s_ext spec)\<rparr>)
         else (False, CHR ''0'', spec))
      else (False, CHR ''0'', spec))"

text \<open>The flags the rest of the extension selects: (\<^verbatim>\<open>addr_p\<close>, \<^verbatim>\<open>port_p\<close>, \<^verbatim>\<open>family_p\<close>).\<close>

definition sockaddr_flags :: "Spec \<Rightarrow> bool \<times> bool \<times> bool" where
  "sockaddr_flags local_spec =
     (if length (s_ext local_spec) \<noteq> 0
      then foldl sockaddr_flag (False, False, False) (s_ext local_spec)
      else (True, True, False))"

text \<open>
  The body of \<^verbatim>\<open>if (addr_p)\<close>: the address, its brackets and the colon before the port.
  The family is printed as the unsigned number it is.
\<close>

definition sockaddr_addr_part ::
  "BufferWriter \<Rightarrow> Spec \<Rightarrow> sockaddr \<Rightarrow> bool \<Rightarrow> BufferWriter option" where
  "sockaddr_addr_part w spec addr port_p =
     (case (if sa_family addr = AF_INET
              then Some (bwformat_IP4Addr w spec (IP4Addr (sin_addr addr)), False)
            else if sa_family addr = AF_INET6
              then (let (w, bracket_p) = (if port_p then (bw_write w ''['', True) else (w, False))
                    in map_option (\<lambda>w. (w, bracket_p)) (bwformat_in6_addr w spec (sin6_addr addr)))
            else map_option (\<lambda>w. (w, False))
                   (print w no_names ''*Not IP address [{}]*''
                      [\<lambda>lw sp. Some (bwformat_unsigned lw sp (unat (sa_family addr)))])) of
        None \<Rightarrow> None
      | Some (w, bracket_p) \<Rightarrow>
          let w = (if bracket_p then bw_write w '']'' else w)
          in Some (if port_p then bw_write w '':'' else w))"

text \<open>The body of \<^verbatim>\<open>if (port_p)\<close>; it changes \<^verbatim>\<open>local_spec\<close>, which the family part reads.\<close>

definition sockaddr_port_part ::
  "BufferWriter \<Rightarrow> Spec \<Rightarrow> sockaddr \<Rightarrow> bool \<Rightarrow> char \<Rightarrow> BufferWriter \<times> Spec" where
  "sockaddr_port_part w local_spec addr local_numeric_fill_p local_numeric_fill_char =
     (let local_spec =
            (if local_numeric_fill_p
             then local_spec\<lparr>s_min := 5, s_fill := local_numeric_fill_char, s_align := RIGHT\<rparr>
             else local_spec\<lparr>s_min := 0\<rparr>)
      in (bwformat_unsigned w local_spec (unat (host_order_port addr)), local_spec))"

text \<open>
  The body of \<^verbatim>\<open>if (family_p)\<close>; \<^verbatim>\<open>has_numeric_type\<close> is asked of the specifier the
  caller gave.
\<close>

definition sockaddr_family_part ::
  "BufferWriter \<Rightarrow> Spec \<Rightarrow> Spec \<Rightarrow> sockaddr \<Rightarrow> bool \<Rightarrow> BufferWriter option" where
  "sockaddr_family_part w spec local_spec addr sep_p =
     (let local_spec = local_spec\<lparr>s_min := 0\<rparr>;
          w = (if sep_p then bw_write w '' '' else w)
      in case has_numeric_type spec of
           None \<Rightarrow> None
         | Some numeric_p \<Rightarrow>
             Some (if numeric_p then bwformat_unsigned w local_spec (unat (sa_family addr))
                   else bwformat_sv w local_spec (family_name (sa_family addr))))"

text \<open>\<open>ptr\<close> is the address the pointer holds, \<open>addr\<close> the structure it points to.\<close>

definition bwformat_sockaddr ::
  "BufferWriter \<Rightarrow> Spec \<Rightarrow> nat \<Rightarrow> sockaddr \<Rightarrow> BufferWriter option" where
  "bwformat_sockaddr w spec ptr addr =
     (if s_type spec = CHR ''p'' \<or> s_type spec = CHR ''P'' then Some (bwformat_ptr w spec ptr)
      else
        let (local_numeric_fill_p, local_numeric_fill_char, local_spec) = sockaddr_fill_prefix spec;
            (addr_p, port_p, family_p) = sockaddr_flags local_spec
        in case (if addr_p then sockaddr_addr_part w spec addr port_p else Some w) of
             None \<Rightarrow> None
           | Some w \<Rightarrow>
               let (w, local_spec) =
                     (if port_p
                      then sockaddr_port_part w local_spec addr local_numeric_fill_p
                             local_numeric_fill_char
                      else (w, local_spec))
               in if family_p then sockaddr_family_part w spec local_spec addr (addr_p \<or> port_p)
                  else Some w)"

section \<open>Argument tuples\<close>

text \<open>
  The values a render call can be given, one constructor per formatter above (a signed
  integer as a \<^verbatim>\<open>short\<close>, an \<^verbatim>\<open>int\<close> or a 64-bit \<^verbatim>\<open>long\<close>), and the array of type-erased
  formatters \<^verbatim>\<open>Get_Arg_Formatter_Array\<close> builds for a tuple of them
  (\<^verbatim>\<open>Arg_Formatter<TUPLE, I>\<close> calls \<^verbatim>\<open>bwformat\<close> on the \<open>I\<close>-th argument).
\<close>

datatype arg =
    Arg_ptr nat
  | Arg_sv string
  | Arg_cstr nat string
  | Arg_unsigned nat
  | Arg_short "16 word"
  | Arg_int "32 word"
  | Arg_long "64 word"
  | Arg_char char
  | Arg_bool bool
  | Arg_IP4Addr IP4Addr
  | Arg_in6_addr in6_addr
  | Arg_sockaddr nat sockaddr

fun bwformat :: "BufferWriter \<Rightarrow> Spec \<Rightarrow> arg \<Rightarrow> BufferWriter option" where
  "bwformat w spec (Arg_ptr p) = Some (bwformat_ptr w spec p)"
| "bwformat w spec (Arg_sv sv) = Some (bwformat_sv w spec sv)"
| "bwformat w spec (Arg_cstr p v) = Some (bwformat_cstr w spec p v)"
| "bwformat w spec (Arg_unsigned i) = Some (bwformat_unsigned w spec i)"
| "bwformat w spec (Arg_short i) = Some (bwformat_signed w spec i)"
| "bwformat w spec (Arg_int i) = Some (bwformat_signed w spec i)"
| "bwformat w spec (Arg_long i) = Some (bwformat_signed w spec i)"
| "bwformat w spec (Arg_char c) = Some (bwformat_char w spec c)"
| "bwformat w spec (Arg_bool f) = Some (bwformat_bool w spec f)"
| "bwformat w spec (Arg_IP4Addr a) = Some (bwformat_IP4Addr w spec a)"
| "bwformat w spec (Arg_in6_addr a) = bwformat_in6_addr w spec a"
| "bwformat w spec (Arg_sockaddr p a) = bwformat_sockaddr w spec p a"

definition Arg_Formatter :: "arg list \<Rightarrow> nat \<Rightarrow> Formatter" where
  "Arg_Formatter args i w spec = bwformat w spec (args ! i)"

definition Get_Arg_Formatter_Array :: "arg list \<Rightarrow> Formatter list" where
  "Get_Arg_Formatter_Array args = map (Arg_Formatter args) [0..<length args]"

section \<open>Notions used in the statements\<close>

text \<open>A specifier that \<^verbatim>\<open>print_nv\<close> dispatches to an argument when the cursor is not negative.\<close>

definition positional :: "Spec \<Rightarrow> bool" where
  "positional spec = (has_valid_type spec \<and> (s_name spec = [] \<or> 0 \<le> s_idx spec))"

text \<open>A segment of zero groups, from group \<open>s\<close> to group \<open>e\<close>, both included.\<close>

definition zero_seg :: "in6_addr \<Rightarrow> nat \<Rightarrow> nat \<Rightarrow> bool" where
  "zero_seg addr s e = (s \<le> e \<and> (\<forall>k \<in> {s..e}. quad_is_zero addr k))"

text \<open>
  The invariant of the scan after the groups before \<open>n\<close>: \<open>current\<close> is the start of the
  run of zero groups that ends at \<open>n - 1\<close>, and the best range is the leftmost longest
  segment of at least two zero groups met so far.
\<close>

definition scan_inv :: "in6_addr \<Rightarrow> nat \<Rightarrow> (nat \<times> nat) option \<times> nat option \<Rightarrow> bool" where
  "scan_inv addr n st =
     (case st of (best, current) \<Rightarrow>
        (case current of
           None \<Rightarrow> n = 0 \<or> \<not> quad_is_zero addr (n - 1)
         | Some c \<Rightarrow> c < n \<and> zero_seg addr c (n - 1) \<and> (c = 0 \<or> \<not> quad_is_zero addr (c - 1)))
        \<and> (case best of
             None \<Rightarrow> (\<forall>s e. zero_seg addr s e \<and> e < n \<longrightarrow> s = e)
           | Some (l, u) \<Rightarrow> l < u \<and> u < n \<and> zero_seg addr l u
               \<and> (\<forall>s e. zero_seg addr s e \<and> e < n \<longrightarrow> e - s \<le> u - l \<and> (e - s = u - l \<longrightarrow> l \<le> s))))"

text \<open>Texts joined by colons.\<close>

fun join_colon :: "string list \<Rightarrow> string" where
  "join_colon [] = []"
| "join_colon [x] = x"
| "join_colon (x # y # zs) = x @ '':'' @ join_colon (y # zs)"

text \<open>What one round of the output loop writes, given the text \<open>t i\<close> of each group.\<close>

definition in6_piece :: "(nat \<Rightarrow> string) \<Rightarrow> (nat \<times> nat) option \<Rightarrow> nat \<Rightarrow> string" where
  "in6_piece t best i =
     (case best of
        None \<Rightarrow> t i @ (if i \<noteq> 7 then '':'' else [])
      | Some (lower, upper) \<Rightarrow>
          if lower \<le> i \<and> i \<le> upper
          then (if i = 0 then '':'' else []) @ (if i = upper then '':'' else [])
          else t i @ (if i \<noteq> 7 then '':'' else []))"

text \<open>The text of the group at index \<open>i\<close>, as the output loop formats it.\<close>

definition in6_group_text :: "in6_addr \<Rightarrow> Spec \<Rightarrow> nat \<Rightarrow> string" where
  "in6_group_text addr local_spec i =
     render_aligned local_spec (integer_text local_spec (unat (quad_value addr i)) False)"

text \<open>The format of the address elements when the extension asks for no alignment.\<close>

definition in6_local_spec :: "Spec \<Rightarrow> Spec" where
  "in6_local_spec spec =
     (if has_numeric_type spec = Some True then spec\<lparr>s_min := 0\<rparr>
      else spec\<lparr>s_min := 0, s_type := CHR ''x''\<rparr>)"

text \<open>An address given by its eight groups, each stored high byte first.\<close>

definition in6_of_groups :: "16 word list \<Rightarrow> in6_addr" where
  "in6_of_groups gs = concat (map (\<lambda>g. [ucast (drop_bit 8 g), ucast g]) gs)"

text \<open>An octet right-aligned in a field of three characters.\<close>

definition octet_field :: "char \<Rightarrow> nat \<Rightarrow> string" where
  "octet_field pad n = replicate (3 - length (to_radix 10 False n)) pad @ to_radix 10 False n"


text \<open>
  The remainder of the fields of a specifier body once the alignment, the sign, the radix
  lead, the minimum width, the precision and the maximum width are read: the text in
  the position of the type character.
\<close>

definition type_field :: "string \<Rightarrow> string" where
  "type_field body =
     (let name = takeWhile (\<lambda>c. c \<noteq> CHR '':'') body;
          rest = drop (Suc (length name)) body;
          fields = takeWhile (\<lambda>c. c \<noteq> CHR '':'') rest
      in snd (parse_max (parse_prec (parse_min (parse_radix (parse_sign
           (parse_align (DEFAULT, fields))))))))"

text \<open>
  The leftmost longest run of two or more zero groups, in the spec's words: a run is
  \<open>n\<close> consecutive groups of value zero from group \<open>s\<close> on; the runs of 8, 7, ..., 2
  groups are tried in this order, each length from the left, and the first run found is
  the one to collapse.  The result is its first and its last group.
\<close>

definition zero_run :: "in6_addr \<Rightarrow> nat \<times> nat \<Rightarrow> bool" where
  "zero_run addr r = (case r of (n, s) \<Rightarrow> list_all (\<lambda>i. quad_value addr i = 0) [s..<s + n])"

definition run_candidates :: "(nat \<times> nat) list" where
  "run_candidates = concat (map (\<lambda>n. map (\<lambda>s. (n, s)) [0..<9 - n]) (rev [2..<9]))"

definition longest_zero_run :: "in6_addr \<Rightarrow> (nat \<times> nat) option" where
  "longest_zero_run addr =
     map_option (\<lambda>(n, s). (s, s + n - 1)) (find (zero_run addr) run_candidates)"

text \<open>The order of the candidates: longer runs first, then from the left.\<close>

definition run_before :: "nat \<times> nat \<Rightarrow> nat \<times> nat \<Rightarrow> bool" where
  "run_before x y = (case x of (n, s) \<Rightarrow> case y of (n', s') \<Rightarrow> n' < n \<or> (n' = n \<and> s < s'))"

text \<open>
  The pad prefix of an extension, in the spec's words: \<^verbatim>\<open>=\<close> alone asks for the pad
  character \<^verbatim>\<open>0\<close>, a character followed by \<^verbatim>\<open>=\<close> for that character.  \<open>pad_char\<close> is
  the pad character asked for, if any, and \<open>strip_pad\<close> the extension without the prefix.
\<close>

definition pad_char :: "string \<Rightarrow> char option" where
  "pad_char ext =
     (case ext of
        [] \<Rightarrow> None
      | c # r \<Rightarrow>
          if c = CHR ''='' then Some (CHR ''0'')
          else (case r of [] \<Rightarrow> None | d # r' \<Rightarrow> if d = CHR ''='' then Some c else None))"

definition strip_pad :: "string \<Rightarrow> string" where
  "strip_pad ext =
     (case ext of
        [] \<Rightarrow> []
      | c # r \<Rightarrow>
          if c = CHR ''='' then r
          else (case r of [] \<Rightarrow> ext | d # r' \<Rightarrow> if d = CHR ''='' then r' else ext))"

text \<open>
  The sub-parts the flag characters select: address and port when there is no flag
  character at all, otherwise the parts whose flag characters (in either case) occur.
  The result is (address, port, family).
\<close>

definition sockaddr_selected :: "string \<Rightarrow> bool \<times> bool \<times> bool" where
  "sockaddr_selected flags =
     (if flags = [] then (True, True, False)
      else ((\<exists>c \<in> set flags. c = CHR ''a'' \<or> c = CHR ''A''),
            (\<exists>c \<in> set flags. c = CHR ''p'' \<or> c = CHR ''P''),
            (\<exists>c \<in> set flags. c = CHR ''f'' \<or> c = CHR ''F'')))"

text \<open>The text of an unsigned number under a specifier, as the integer renderer gives it.\<close>

definition number_text :: "Spec \<Rightarrow> nat \<Rightarrow> string" where
  "number_text spec n = render_aligned spec (integer_text spec n False)"

text \<open>
  The specifier of the elements of an address: right-aligned to \<open>width\<close> with the pad
  character when the extension has a pad prefix, of no minimum width otherwise.
\<close>

definition element_spec :: "nat \<Rightarrow> Spec \<Rightarrow> Spec" where
  "element_spec width spec =
     (case pad_char (s_ext spec) of
        Some c \<Rightarrow> spec\<lparr>s_fill := c, s_min := width, s_align := RIGHT\<rparr>
      | None \<Rightarrow> spec\<lparr>s_min := 0\<rparr>)"

text \<open>The text of an IPv4 address: its four octets, highest first, separated by dots.\<close>

definition ip4_text :: "Spec \<Rightarrow> IP4Addr \<Rightarrow> string" where
  "ip4_text spec a =
     (let ls = element_spec 3 spec;
          octet = (\<lambda>k. (unat (host_order a) div 2 ^ (8 * k)) mod 256)
      in number_text ls (octet 3) @ ''.'' @ number_text ls (octet 2) @ ''.''
         @ number_text ls (octet 1) @ ''.'' @ number_text ls (octet 0))"

text \<open>
  The text of an IPv6 address: its eight groups joined by colons, in hexadecimal unless
  the type is a numeric one, with the leftmost longest run of two or more zero groups
  collapsed to \<^verbatim>\<open>::\<close> when the extension has no pad prefix.
\<close>

definition in6_text :: "Spec \<Rightarrow> in6_addr \<Rightarrow> string" where
  "in6_text spec a =
     (let ls = element_spec 4 spec;
          ls = (if has_numeric_type spec = Some True then ls else ls\<lparr>s_type := CHR ''x''\<rparr>);
          gs = map (\<lambda>i. number_text ls (unat (quad_value a i))) [0..<8]
      in case (if pad_char (s_ext spec) = None then longest_zero_run a else None) of
           None \<Rightarrow> join_colon gs
         | Some (l, u) \<Rightarrow> join_colon (take l gs) @ ''::'' @ join_colon (drop (Suc u) gs))"

text \<open>
  The three sub-parts of an endpoint.  The address is the text of the IPv4 or the IPv6
  address for these families and a note with the number of the family for any other;
  the port is padded to five characters when the extension has a pad prefix; the
  family is its number under a numeric type and its name otherwise.
\<close>

definition endpoint_addr_text :: "Spec \<Rightarrow> sockaddr \<Rightarrow> string" where
  "endpoint_addr_text spec addr =
     (if sa_family addr = AF_INET then ip4_text spec (IP4Addr (sin_addr addr))
      else if sa_family addr = AF_INET6 then in6_text spec (sin6_addr addr)
      else ''*Not IP address ['' @ to_radix 10 False (unat (sa_family addr)) @ '']*'')"

definition endpoint_port_text :: "Spec \<Rightarrow> sockaddr \<Rightarrow> string" where
  "endpoint_port_text spec addr = number_text (element_spec 5 spec) (unat (host_order_port addr))"

definition endpoint_family_text :: "Spec \<Rightarrow> sockaddr \<Rightarrow> string" where
  "endpoint_family_text spec addr =
     (if has_numeric_type spec = Some True
      then number_text (spec\<lparr>s_min := 0\<rparr>) (unat (sa_family addr))
      else family_name (sa_family addr))"

section \<open>Facts about the sink and the renderer\<close>

lemma attempted_bw_write [simp]: "attempted (bw_write w s) = attempted w @ s"
  by (simp add: bw_write_def)

lemma capacity_bw_write [simp]: "capacity (bw_write w s) = capacity w"
  by (simp add: bw_write_def)

lemma bw_write_append [simp]: "bw_write (bw_write w a) b = bw_write w (a @ b)"
  by (simp add: bw_write_def)

lemma bw_write_Nil [simp]: "bw_write w [] = w"
  by (simp add: bw_write_def)

lemma view_take: "view w = take (capacity w) (attempted w)"
  by (simp add: view_def)

lemma render_aligned_fits:
  "s_min spec \<le> length raw \<Longrightarrow> length raw \<le> s_max spec \<Longrightarrow> render_aligned spec raw = raw"
  by (simp add: render_aligned_def Let_def)

lemma render_aligned_name [simp]: "render_aligned (spec\<lparr>s_name := n\<rparr>) raw = render_aligned spec raw"
  by (simp add: render_aligned_def Let_def split: Align.split)

lemma render_aligned_idx [simp]: "render_aligned (spec\<lparr>s_idx := i\<rparr>) raw = render_aligned spec raw"
  by (simp add: render_aligned_def Let_def split: Align.split)

lemma to_radix_length_pow:
  "2 \<le> r \<Longrightarrow> 0 < k \<Longrightarrow> n < r ^ k \<Longrightarrow> length (to_radix r upper n) \<le> k"
proof (induction r upper n arbitrary: k rule: to_radix.induct)
  case (1 r upper n)
  show ?case
  proof (cases "n < r")
    case True
    then show ?thesis using "1.prems" by (simp add: to_radix.simps [of r upper n])
  next
    case False
    then have k2: "2 \<le> k"
      using "1.prems" by (cases k; cases "k - 1") auto
    have "n div r < r ^ (k - 1)"
    proof -
      have "r ^ k = r ^ (k - 1) * r" using k2 by (cases k) auto
      then show ?thesis using "1.prems" by (simp add: less_mult_imp_div_less)
    qed
    then have "length (to_radix r upper (n div r)) \<le> k - 1"
      using "1.IH" [of "k - 1"] False "1.prems" k2 by simp
    then show ?thesis using False "1.prems" k2 by (simp add: to_radix.simps [of r upper n])
  qed
qed

lemma to_radix_not_Nil [simp]: "to_radix r upper n \<noteq> []"
  by (subst to_radix.simps) simp

section \<open>Facts about the property table\<close>

lemma prop_at_table_index:
  "prop_at (table_index c) = (if of_char c < (128 :: nat) then Some (prop_data c) else None)"
  by (simp add: prop_at_def table_index_def)

lemma is_sign_Some: "is_sign c = Some b \<longleftrightarrow> of_char c < (128 :: nat) \<and> b = sign_entry c"
  by (auto simp add: is_sign_def prop_at_table_index sign_entry_def)

lemma is_type_Some: "is_type c = Some b \<longleftrightarrow> of_char c < (128 :: nat) \<and> b = type_entry c"
  by (auto simp add: is_type_def prop_at_table_index type_entry_def)

lemma has_numeric_type_eq:
  "has_numeric_type spec =
     (if of_char (s_type spec) < (128 :: nat)
      then Some (prop_data (s_type spec) AND NUMERIC_TYPE_CHAR \<noteq> 0) else None)"
  by (simp add: has_numeric_type_def prop_at_table_index)

text \<open>A type byte of \<^verbatim>\<open>0x80\<close> or more is looked up outside the table.\<close>

lemma has_numeric_type_None: "has_numeric_type spec = None \<longleftrightarrow> (128 :: nat) \<le> of_char (s_type spec)"
  by (simp add: has_numeric_type_eq)

section \<open>Facts about \<^verbatim>\<open>print_nv\<close>\<close>

lemma print_nv_loop_append:
  "print_nv_loop names fa st (f @ g) =
     (case print_nv_loop names fa st f of
        None \<Rightarrow> None
      | Some st' \<Rightarrow> print_nv_loop names fa st' g)"
  by (induction f arbitrary: st) (simp_all split: option.split)

lemma print_nv_step_cursor:
  "0 \<le> k \<Longrightarrow> print_nv_step names fa (w, k) (lit, spec) = Some (w', k') \<Longrightarrow>
   k' = (if positional spec then k + 1 else k)"
  by (auto simp add: print_nv_step_def positional_def Let_def split: if_splits option.splits)

lemma print_nv_loop_cursor:
  "0 \<le> k \<Longrightarrow> print_nv_loop names fa (w, k) f = Some (w', k') \<Longrightarrow>
   k' = k + int (length (filter (positional \<circ> snd) f))"
proof (induction f arbitrary: w k)
  case Nil
  then show ?case by simp
next
  case (Cons tok f)
  obtain lit spec where tok: "tok = (lit, spec)" by (cases tok)
  obtain w1 k1 where st: "print_nv_step names fa (w, k) (lit, spec) = Some (w1, k1)"
    and rest: "print_nv_loop names fa (w1, k1) f = Some (w', k')"
    using Cons.prems(2) tok by (auto split: option.splits)
  have k1: "k1 = (if positional spec then k + 1 else k)"
    using print_nv_step_cursor [OF Cons.prems(1) st] .
  then have "0 \<le> k1" using Cons.prems(1) by simp
  then show ?case using Cons.IH [OF _ rest] tok k1 by simp
qed

lemma print_nv_step_invalid:
  "\<not> has_valid_type spec \<Longrightarrow>
   print_nv_step names fa (w, k) (lit, spec) = Some (bw_write w lit, k)"
  by (cases lit) (simp_all add: print_nv_step_def Let_def)

lemma print_nv_step_unindexed:
  assumes "has_valid_type spec" "s_name spec = []" "0 \<le> k" "nat k < length fa"
  shows "print_nv_step names fa (w, k) (lit, spec) =
     (let w1 = bw_write w lit;
          sp = spec\<lparr>s_idx := k\<rparr>
      in map_option (\<lambda>lw. (if extent lw \<noteq> 0 then Adjust_Alignment w1 sp lw else w1, k + 1))
           ((fa ! nat k) (FixedBufferWriter (min (s_max spec) (remaining w1))) sp))"
  using assms
  by (cases lit) (auto simp add: print_nv_step_def Let_def min_def split: option.split)

lemma print_nv_step_bad_index:
  assumes "has_valid_type spec"
    and "i = (if s_name spec = [] then k else s_idx spec)"
    and "int (length fa) \<le> i"
  shows "print_nv_step names fa (w, k) (lit, spec) =
     Some (bw_write w (lit @ render_aligned spec
        (''{~BAD INDEX '' @ to_radix 10 False (nat i) @ '' of ''
           @ to_radix 10 False (length fa) @ ''~}'')), k + 1)"
proof -
  have i0: "0 \<le> i" using assms(3) by linarith
  show ?thesis
  proof (cases "s_name spec = []")
    case True
    then have "i = k" using assms by simp
    then show ?thesis using assms True i0
      by (cases lit)
         (simp_all add: print_nv_step_def Let_def extent_def FixedBufferWriter_def
            Adjust_Alignment_def Err_Bad_Arg_Index_def)
  next
    case False
    then have "i = s_idx spec" using assms by simp
    then show ?thesis using assms False i0
      by (cases lit)
         (simp_all add: print_nv_step_def Let_def extent_def FixedBufferWriter_def
            Adjust_Alignment_def Err_Bad_Arg_Index_def)
  qed
qed

section \<open>The argument cursor\<close>

text \<open>
  C1 (as amended).  The cursor \<^verbatim>\<open>arg_idx\<close> of a render call starts at 0 and is advanced by
  every specifier that is dispatched to an argument, whether the index is its own or was
  taken from the cursor; only specifiers resolved by name and specifiers of invalid type
  leave it unchanged.  A specifier without an index therefore receives the argument whose
  position is the number of positional specifiers, indexed or not, rendered before it:
  when the tokens \<open>f\<close> before it have been rendered, the cursor is that number \<open>c\<close>, the
  specifier is rendered by the formatter of argument \<open>c\<close> and the cursor becomes
  \<open>c + 1\<close>.  (A render call in which a formatter does not return has no result.)
\<close>

theorem cursor_counts_every_positional_specifier:
  assumes "has_valid_type spec" and "s_name spec = []"
    and "c = length (filter (positional \<circ> snd) f)" and "c < length fa"
  shows "(\<forall>w' k'. print_nv_loop names fa (w, 0) f = Some (w', k') \<longrightarrow> k' = int c)
       \<and> print_nv_loop names fa (w, 0) (f @ [(lit, spec)]) =
           (case print_nv_loop names fa (w, 0) f of
              None \<Rightarrow> None
            | Some (w', k') \<Rightarrow>
                let w1 = bw_write w' lit;
                    sp = spec\<lparr>s_idx := int c\<rparr>
                in map_option
                     (\<lambda>lw. (if extent lw \<noteq> 0 then Adjust_Alignment w1 sp lw else w1, int c + 1))
                     ((fa ! c) (FixedBufferWriter (min (s_max spec) (remaining w1))) sp))"
proof -
  have cur: "\<And>w' k'. print_nv_loop names fa (w, 0) f = Some (w', k') \<Longrightarrow> k' = int c"
    using print_nv_loop_cursor [of 0 names fa w f] assms(3) by simp
  show ?thesis
  proof (cases "print_nv_loop names fa (w, 0) f")
    case None
    then show ?thesis by (simp add: print_nv_loop_append)
  next
    case (Some st)
    obtain w' k' where st: "st = (w', k')" by (cases st)
    have k': "k' = int c" using cur Some st by simp
    show ?thesis
      using Some st k' assms print_nv_step_unindexed [of spec k' fa names w' lit]
      by (simp add: print_nv_loop_append split: option.split)
  qed
qed

theorem cursor_counts_every_positional_specifier_witness:
  "has_valid_type DEFAULT \<and> s_name DEFAULT = []
   \<and> (1::nat) = length (filter (positional \<circ> snd) (tokenize ''{1}'' [] None))
   \<and> (1::nat) < length (Get_Arg_Formatter_Array [Arg_sv ''a'', Arg_sv ''b''])
   \<and> print_nv_loop no_names (Get_Arg_Formatter_Array [Arg_sv ''a'', Arg_sv ''b''])
        (FixedBufferWriter 100, 0) (tokenize ''{1}'' [] None) =
      Some (bw_write (FixedBufferWriter 100) ''b'', 1)
   \<and> print_nv_loop no_names (Get_Arg_Formatter_Array [Arg_sv ''a'', Arg_sv ''b''])
        (FixedBufferWriter 100, 0) (tokenize ''{1}'' [] None @ [([], DEFAULT)]) =
      Some (bw_write (FixedBufferWriter 100) ''bb'', 2)"
proof -
  let ?fa = "Get_Arg_Formatter_Array [Arg_sv ''a'', Arg_sv ''b'']"
  have h1: "has_valid_type DEFAULT" by code_simp
  have h2: "s_name DEFAULT = []" by code_simp
  have h3: "(1::nat) = length (filter (positional \<circ> snd) (tokenize ''{1}'' [] None))"
    by code_simp
  have h4: "(1::nat) < length ?fa" by code_simp
  have p: "print_nv_loop no_names ?fa (FixedBufferWriter 100, 0) (tokenize ''{1}'' [] None) =
      Some (bw_write (FixedBufferWriter 100) ''b'', 1)"
    by code_simp
  have l: "(?fa ! Suc 0) (FixedBufferWriter (min (s_max DEFAULT) (remaining (bw_write (FixedBufferWriter 100) ''b''))))
             (DEFAULT\<lparr>s_idx := 1\<rparr>) =
           Some (bw_write (FixedBufferWriter 99) ''b'')"
    by code_simp
  have a: "Adjust_Alignment (bw_write (FixedBufferWriter 100) ''b'') (DEFAULT\<lparr>s_idx := 1\<rparr>)
             (bw_write (FixedBufferWriter 99) ''b'') = bw_write (FixedBufferWriter 100) ''bb''"
    by code_simp
  have "print_nv_loop no_names ?fa (FixedBufferWriter 100, 0) (tokenize ''{1}'' [] None @ [([], DEFAULT)]) =
      Some (bw_write (FixedBufferWriter 100) ''bb'', 2)"
    using cursor_counts_every_positional_specifier [OF h1 h2 h3 h4, of no_names "FixedBufferWriter 100" "[]",
        THEN conjunct2]
    unfolding p by (simp add: Let_def l a extent_def del: tokenize.simps)
  then show ?thesis using h1 h2 h3 h4 p by blast
qed

text \<open>
  The claim as stated fails: after the indexed specifier \<^verbatim>\<open>{1}\<close> the cursor is 1, so in
  \<^verbatim>\<open>{1}{}\<close> with the arguments \<^verbatim>\<open>a\<close>, \<^verbatim>\<open>b\<close> the specifier without an index receives
  \<^verbatim>\<open>b\<close>, not the argument at position 0.  The same holds for the two tokens given
  directly, whether the index is carried with its digits in the name or with an empty name
  (where \<^verbatim>\<open>print_nv\<close> replaces it by the cursor).
\<close>

theorem explicit_index_advances_cursor_counterexample:
  "map_option snd (print_nv_loop no_names (Get_Arg_Formatter_Array [Arg_sv ''a'', Arg_sv ''b''])
        (FixedBufferWriter 100, 0) (tokenize ''{1}'' [] None)) = Some 1
   \<and> map_option attempted (print (FixedBufferWriter 100) no_names ''{1}{}''
        (Get_Arg_Formatter_Array [Arg_sv ''a'', Arg_sv ''b''])) = Some ''bb''
   \<and> map_option attempted (print (FixedBufferWriter 100) no_names ''{1}{}''
        (Get_Arg_Formatter_Array [Arg_sv ''a'', Arg_sv ''b''])) \<noteq> Some ''ba''
   \<and> map_option attempted (print_nv (FixedBufferWriter 100) no_names
        [([], DEFAULT\<lparr>s_idx := 1, s_name := ''1''\<rparr>), ([], DEFAULT)]
        (Get_Arg_Formatter_Array [Arg_sv ''a'', Arg_sv ''b''])) = Some ''bb''
   \<and> map_option attempted (print_nv (FixedBufferWriter 100) no_names
        [([], DEFAULT\<lparr>s_idx := 1\<rparr>), ([], DEFAULT)]
        (Get_Arg_Formatter_Array [Arg_sv ''a'', Arg_sv ''b''])) = Some ''ab''"
  by code_simp

section \<open>Specifiers of invalid type\<close>

lemma parse_align_snd: "snd p = snd q \<Longrightarrow> snd (parse_align p) = snd (parse_align q)"
  by (cases p; cases q; cases "snd p"; cases "tl (snd p)") auto

lemma parse_sign_snd: "snd p = snd q \<Longrightarrow> snd (parse_sign p) = snd (parse_sign q)"
  by (cases p; cases q; cases "snd p") auto

lemma parse_radix_snd: "snd p = snd q \<Longrightarrow> snd (parse_radix p) = snd (parse_radix q)"
  by (cases p; cases q; cases "snd p") auto

lemma parse_min_snd: "snd p = snd q \<Longrightarrow> snd (parse_min p) = snd (parse_min q)"
  by (cases p; cases q) (simp add: Let_def)

lemma parse_prec_snd: "snd p = snd q \<Longrightarrow> snd (parse_prec p) = snd (parse_prec q)"
  by (cases p; cases q; cases "snd p") auto

lemma parse_max_snd: "snd p = snd q \<Longrightarrow> snd (parse_max p) = snd (parse_max q)"
  by (cases p; cases q; cases "snd p") auto

lemma parse_fields_snd:
  "snd (parse_max (parse_prec (parse_min (parse_radix (parse_sign (parse_align (spec, s))))))) =
   snd (parse_max (parse_prec (parse_min (parse_radix (parse_sign (parse_align (spec', s)))))))"
proof -
  have "snd (parse_align (spec, s)) = snd (parse_align (spec', s))"
    by (rule parse_align_snd) simp
  then have "snd (parse_sign (parse_align (spec, s))) = snd (parse_sign (parse_align (spec', s)))"
    by (rule parse_sign_snd)
  then have "snd (parse_radix (parse_sign (parse_align (spec, s)))) =
             snd (parse_radix (parse_sign (parse_align (spec', s))))"
    by (rule parse_radix_snd)
  then have "snd (parse_min (parse_radix (parse_sign (parse_align (spec, s))))) =
             snd (parse_min (parse_radix (parse_sign (parse_align (spec', s)))))"
    by (rule parse_min_snd)
  then have "snd (parse_prec (parse_min (parse_radix (parse_sign (parse_align (spec, s)))))) =
             snd (parse_prec (parse_min (parse_radix (parse_sign (parse_align (spec', s))))))"
    by (rule parse_prec_snd)
  then show ?thesis by (rule parse_max_snd)
qed

lemma parse_type_unknown:
  "snd p = c # r \<Longrightarrow> \<not> type_entry c \<Longrightarrow> \<not> has_valid_type (parse_type p)"
  by (cases p) (simp add: has_valid_type_def)

text \<open>An unknown character in the position of the type marks the specifier invalid-type.\<close>

lemma Spec_parse_unknown_type:
  assumes "type_field body = c # r" and "\<not> type_entry c"
  shows "\<not> has_valid_type (Spec_parse body)"
proof -
  let ?name = "takeWhile (\<lambda>c. c \<noteq> CHR '':'') body"
  let ?rest = "drop (Suc (length ?name)) body"
  let ?fields = "takeWhile (\<lambda>c. c \<noteq> CHR '':'') ?rest"
  let ?spec = "DEFAULT\<lparr>s_name := ?name, s_ext := drop (Suc (length ?fields)) ?rest\<rparr>"
  let ?spec' = "(if ?name \<noteq> [] \<and> list_all is_digit ?name
                  then ?spec\<lparr>s_idx := int (to_number ?name)\<rparr> else ?spec)"
  let ?p = "parse_max (parse_prec (parse_min (parse_radix (parse_sign (parse_align (?spec', ?fields))))))"
  have "snd ?p = type_field body"
    unfolding type_field_def Let_def by (rule parse_fields_snd)
  then have "snd ?p = c # r" using assms(1) by simp
  then have "\<not> has_valid_type (parse_type ?p)" using assms(2) by (rule parse_type_unknown)
  then show ?thesis by (simp add: Spec_parse_def Let_def)
qed

lemma tokenize_literal:
  "CHR ''{'' \<notin> set lit \<Longrightarrow> CHR ''}'' \<notin> set lit \<Longrightarrow>
   tokenize (lit @ cs) acc None = tokenize cs (acc @ lit) None"
  by (induction lit arbitrary: acc) auto

lemma tokenize_body:
  "CHR ''}'' \<notin> set body \<Longrightarrow>
   tokenize (body @ CHR ''}'' # rest) lit (Some b0) = (lit, Spec_parse (b0 @ body)) # tokenize rest [] None"
  by (induction body arbitrary: b0) auto

lemma tokenize_open:
  "CHR ''{'' \<notin> set body \<Longrightarrow>
   tokenize (CHR ''{'' # body @ CHR ''}'' # rest) lit None = tokenize (body @ CHR ''}'' # rest) lit (Some [])"
  by (cases body) auto

text \<open>A literal and a specifier body without braces are one token.\<close>

lemma tokenize_specifier:
  assumes "CHR ''{'' \<notin> set (lit @ body)" and "CHR ''}'' \<notin> set (lit @ body)"
  shows "tokenize (lit @ ''{'' @ body @ ''}'' @ rest) [] None =
           (lit, Spec_parse body) # tokenize rest [] None"
proof -
  have "tokenize (lit @ ''{'' @ body @ ''}'' @ rest) [] None =
        tokenize (CHR ''{'' # body @ CHR ''}'' # rest) lit None"
    using assms tokenize_literal [of lit "''{'' @ body @ ''}'' @ rest" "[]"] by simp
  also have "\<dots> = tokenize (body @ CHR ''}'' # rest) lit (Some [])"
    using assms by (intro tokenize_open) simp
  also have "\<dots> = (lit, Spec_parse body) # tokenize rest [] None"
    using assms tokenize_body [of body rest lit "[]"] by simp
  finally show ?thesis .
qed

text \<open>
  C7 (as amended).  For every specifier whose type character is unknown, that is, the
  character \<open>c\<close> the parser finds in the position of the type is a 7-bit character that
  the property table does not classify as a type character: the specifier is marked
  invalid-type, nothing is raised, and the render step skips the specifier.  The literal
  before it is written, nothing is written for the specifier itself (no error marker is
  substituted), the cursor is unchanged and rendering continues with the rest of the
  template; for a literal and a specifier body without braces, the template
  \<open>lit{body}rest\<close> is rendered as \<open>lit\<close> followed by the rendering of \<open>rest\<close>.
\<close>

theorem invalid_type_specifier_is_skipped:
  assumes "type_field body = c # r" and "is_type c = Some False"
    and "CHR ''{'' \<notin> set (lit @ body)" and "CHR ''}'' \<notin> set (lit @ body)"
  shows "\<not> has_valid_type (Spec_parse body)
       \<and> print_nv_loop names fa (w, k) ((lit, Spec_parse body) # f) =
           print_nv_loop names fa (bw_write w lit, k) f
       \<and> print w names (lit @ ''{'' @ body @ ''}'' @ rest) fa = print (bw_write w lit) names rest fa"
proof -
  have "\<not> type_entry c" using assms(2) by (simp add: is_type_Some)
  then have inv: "\<not> has_valid_type (Spec_parse body)"
    using assms(1) by (intro Spec_parse_unknown_type)
  then have step: "\<And>w k. print_nv_step names fa (w, k) (lit, Spec_parse body) = Some (bw_write w lit, k)"
    by (rule print_nv_step_invalid)
  have "print w names (lit @ ''{'' @ body @ ''}'' @ rest) fa = print (bw_write w lit) names rest fa"
    unfolding print_def print_nv_def tokenize_specifier [OF assms(3,4)]
    by (simp add: step)
  then show ?thesis using inv step by simp
qed

theorem invalid_type_specifier_is_skipped_witness:
  "type_field ''tag:>8,20q:ext'' = ''q'' \<and> is_type CHR ''q'' = Some False
   \<and> CHR ''{'' \<notin> set (''a'' @ ''tag:>8,20q:ext'') \<and> CHR ''}'' \<notin> set (''a'' @ ''tag:>8,20q:ext'')
   \<and> print (FixedBufferWriter 16) no_names (''a'' @ ''{'' @ ''tag:>8,20q:ext'' @ ''}'' @ ''b'')
        (Get_Arg_Formatter_Array [Arg_sv ''x'']) = Some (bw_write (FixedBufferWriter 16) ''ab'')"
proof -
  have h1: "type_field ''tag:>8,20q:ext'' = ''q''" by code_simp
  have h2: "is_type CHR ''q'' = Some False"
    by (simp add: is_type_Some type_entry_def prop_data_def)
  have h3: "CHR ''{'' \<notin> set (''a'' @ ''tag:>8,20q:ext'')" by simp
  have h4: "CHR ''}'' \<notin> set (''a'' @ ''tag:>8,20q:ext'')" by simp
  have r: "print (bw_write (FixedBufferWriter 16) ''a'') no_names ''b'' (Get_Arg_Formatter_Array [Arg_sv ''x''])
             = Some (bw_write (FixedBufferWriter 16) ''ab'')"
    by code_simp
  have t: "print (FixedBufferWriter 16) no_names (''a'' @ ''{'' @ ''tag:>8,20q:ext'' @ ''}'' @ ''b'')
        (Get_Arg_Formatter_Array [Arg_sv ''x'']) = Some (bw_write (FixedBufferWriter 16) ''ab'')"
    using invalid_type_specifier_is_skipped [OF h1 h2 h3 h4, of no_names "Get_Arg_Formatter_Array [Arg_sv ''x'']"
        "FixedBufferWriter 16" 0 "[]" "''b''", THEN conjunct2, THEN conjunct2]
    unfolding r .
  show ?thesis by (intro conjI h1 h2 h3 h4 t)
qed

text \<open>
  The claim as stated fails: the unknown type character \<^verbatim>\<open>q\<close> marks the specifier
  invalid-type, and the output holds the two literals only, with no error marker; so it
  does for a token whose specifier has the invalid type.
\<close>

theorem invalid_type_has_no_marker_counterexample:
  "\<not> has_valid_type (Spec_parse '':q'')
   \<and> map_option attempted (print (FixedBufferWriter 100) no_names ''a{:q}b''
        (Get_Arg_Formatter_Array [Arg_sv ''x''])) = Some ''ab''
   \<and> map_option attempted (print_nv (FixedBufferWriter 100) no_names
        [(''a'', DEFAULT\<lparr>s_type := INVALID_TYPE\<rparr>), (''b'', NO_SPEC)]
        (Get_Arg_Formatter_Array [Arg_sv ''x''])) = Some ''ab''"
  by code_simp

section \<open>Argument index out of range\<close>

text \<open>
  C2 (as amended).  When a specifier of valid type is dispatched with an index (its own,
  or the cursor when it has none) that is at least the number of arguments, the render
  step raises nothing: it passes the diagnostic literal \<^verbatim>\<open>{~BAD INDEX <i> of <N>~}\<close>,
  naming the index and the argument count, through the alignment renderer of the
  specifier into the destination, advances the cursor and goes on with the rest of the
  template.  The literal reaches the output unchanged when the minimum width of the
  specifier is at most, and its maximum width at least, the length of the literal.
\<close>

theorem bad_index_is_reported_in_band:
  assumes "has_valid_type spec"
    and "i = (if s_name spec = [] then k else s_idx spec)"
    and "int (length fa) \<le> i"
    and "d = ''{~BAD INDEX '' @ to_radix 10 False (nat i) @ '' of ''
               @ to_radix 10 False (length fa) @ ''~}''"
  shows "print_nv_loop names fa (w, k) ((lit, spec) # f) =
           print_nv_loop names fa (bw_write w (lit @ render_aligned spec d), k + 1) f
         \<and> (s_min spec \<le> length d \<and> length d \<le> s_max spec \<longrightarrow> render_aligned spec d = d)"
  using print_nv_step_bad_index [OF assms(1-3), of names w lit] assms(4)
  by (simp add: render_aligned_fits)

theorem bad_index_is_reported_in_band_witness:
  "has_valid_type (Spec_parse ''5'')
   \<and> int (length (Get_Arg_Formatter_Array [Arg_sv ''a'', Arg_sv ''b''])) \<le> s_idx (Spec_parse ''5'')
   \<and> print (FixedBufferWriter 100) no_names ''{5}''
        (Get_Arg_Formatter_Array [Arg_sv ''a'', Arg_sv ''b'']) =
      Some (bw_write (FixedBufferWriter 100) ''{~BAD INDEX 5 of 2~}'')"
proof -
  let ?fa = "Get_Arg_Formatter_Array [Arg_sv ''a'', Arg_sv ''b'']"
  let ?d = "''{~BAD INDEX '' @ to_radix 10 False (nat 5) @ '' of ''
               @ to_radix 10 False (length ?fa) @ ''~}''"
  have h1: "has_valid_type (Spec_parse ''5'')" by code_simp
  have h3: "(5::int) = (if s_name (Spec_parse ''5'') = [] then 0 else s_idx (Spec_parse ''5''))"
    by code_simp
  have h4: "int (length ?fa) \<le> 5" by code_simp
  have t: "tokenize ''{5}'' [] None = [([], Spec_parse ''5'')]" by simp
  have d: "?d = ''{~BAD INDEX 5 of 2~}''" by code_simp
  have s: "s_min (Spec_parse ''5'') = 0" "s_max (Spec_parse ''5'') = UINT_MAX" by code_simp+
  have fits: "s_min (Spec_parse ''5'') \<le> length ?d \<and> length ?d \<le> s_max (Spec_parse ''5'')"
    unfolding d s by (simp add: UINT_MAX_def)
  note b = bad_index_is_reported_in_band [where spec = "Spec_parse ''5''" and k = 0 and i = 5
      and fa = ?fa and names = no_names and w = "FixedBufferWriter 100" and lit = "[]" and f = "[]",
      OF h1 h3 h4 refl]
  have "render_aligned (Spec_parse ''5'') ?d = ?d"
    using b [THEN conjunct2] fits by simp
  then have r: "render_aligned (Spec_parse ''5'') ''{~BAD INDEX 5 of 2~}'' = ''{~BAD INDEX 5 of 2~}''"
    unfolding d .
  have "print_nv_loop no_names ?fa (FixedBufferWriter 100, 0) [([], Spec_parse ''5'')] =
          Some (bw_write (FixedBufferWriter 100) ''{~BAD INDEX 5 of 2~}'', 1)"
    using b [THEN conjunct1] unfolding d r by simp
  then have p: "print (FixedBufferWriter 100) no_names ''{5}'' ?fa =
      Some (bw_write (FixedBufferWriter 100) ''{~BAD INDEX 5 of 2~}'')"
    by (simp add: print_def print_nv_def t del: tokenize.simps)
  have h5: "int (length ?fa) \<le> s_idx (Spec_parse ''5'')" by code_simp
  show ?thesis by (intro conjI h1 h5 p)
qed

text \<open>
  The claim as stated fails for a specifier of invalid type, which is skipped and writes
  nothing, whatever its index: \<^verbatim>\<open>{5:q}\<close> with two arguments leaves the destination
  empty.  And a maximum width cuts the literal: \<^verbatim>\<open>{5:,3}\<close> with two arguments yields
  \<^verbatim>\<open>{~B\<close>, which names neither the index nor the count.
\<close>

theorem bad_index_marker_counterexample:
  "print (FixedBufferWriter 100) no_names ''{5:q}''
        (Get_Arg_Formatter_Array [Arg_sv ''a'', Arg_sv ''b'']) = Some (FixedBufferWriter 100)
   \<and> print_nv (FixedBufferWriter 100) no_names
        [([], DEFAULT\<lparr>s_idx := 5, s_name := ''5'', s_type := INVALID_TYPE\<rparr>)]
        (Get_Arg_Formatter_Array [Arg_sv ''a'', Arg_sv ''b'']) = Some (FixedBufferWriter 100)
   \<and> map_option attempted (print (FixedBufferWriter 100) no_names ''{5:,3}''
        (Get_Arg_Formatter_Array [Arg_sv ''a'', Arg_sv ''b''])) = Some ''{~B''"
  by code_simp

section \<open>Formatters do not read the name of the specifier\<close>

lemma name_update_outward:
  "spec\<lparr>s_name := n, s_fill := c\<rparr> = spec\<lparr>s_fill := c, s_name := n\<rparr>"
  "spec\<lparr>s_name := n, s_min := m\<rparr> = spec\<lparr>s_min := m, s_name := n\<rparr>"
  "spec\<lparr>s_name := n, s_align := a\<rparr> = spec\<lparr>s_align := a, s_name := n\<rparr>"
  "spec\<lparr>s_name := n, s_type := t\<rparr> = spec\<lparr>s_type := t, s_name := n\<rparr>"
  "spec\<lparr>s_name := n, s_radix_lead_p := r\<rparr> = spec\<lparr>s_radix_lead_p := r, s_name := n\<rparr>"
  "spec\<lparr>s_name := n, s_ext := e\<rparr> = spec\<lparr>s_ext := e, s_name := n\<rparr>"
  by simp_all

lemma integer_text_name [simp]: "integer_text (spec\<lparr>s_name := n\<rparr>) = integer_text spec"
  by (intro ext) (simp add: integer_text_def)

lemma Format_Integer_name [simp]: "Format_Integer w (spec\<lparr>s_name := n\<rparr>) = Format_Integer w spec"
  by (intro ext) (simp add: Format_Integer_def)

lemma bwformat_unsigned_name [simp]: "bwformat_unsigned w (spec\<lparr>s_name := n\<rparr>) = bwformat_unsigned w spec"
  by (intro ext) (simp add: bwformat_unsigned_def)

lemma bwformat_ptr_name [simp]: "bwformat_ptr w (spec\<lparr>s_name := n\<rparr>) = bwformat_ptr w spec"
  by (intro ext) (simp add: bwformat_ptr_def Let_def name_update_outward)

lemma bwformat_sv_name [simp]: "bwformat_sv w (spec\<lparr>s_name := n\<rparr>) = bwformat_sv w spec"
  by (intro ext) (simp add: bwformat_sv_def)

lemma has_numeric_type_name [simp]: "has_numeric_type (spec\<lparr>s_name := n\<rparr>) = has_numeric_type spec"
  by (simp add: has_numeric_type_def)

lemma ext_alignment_name:
  "ext_alignment (spec\<lparr>s_name := n\<rparr>) = (fst (ext_alignment spec), (snd (ext_alignment spec))\<lparr>s_name := n\<rparr>)"
  by (simp add: ext_alignment_def name_update_outward)

lemma bwformat_IP4Addr_name [simp]:
  "bwformat_IP4Addr w (spec\<lparr>s_name := n\<rparr>) = bwformat_IP4Addr w spec"
  by (intro ext) (simp add: bwformat_IP4Addr_def Let_def split_def ext_alignment_name name_update_outward)

lemma in6_output_step_name [simp]:
  "in6_output_step a (spec\<lparr>s_name := n\<rparr>) = in6_output_step a spec"
  by (intro ext) (simp add: in6_output_step_def Let_def)

lemma has_numeric_type_update [simp]:
  "has_numeric_type (spec\<lparr>s_min := m\<rparr>) = has_numeric_type spec"
  "has_numeric_type (spec\<lparr>s_align := a\<rparr>) = has_numeric_type spec"
  "has_numeric_type (spec\<lparr>s_fill := c\<rparr>) = has_numeric_type spec"
  by (simp_all add: has_numeric_type_def)

lemma bwformat_in6_addr_name [simp]:
  "bwformat_in6_addr w (spec\<lparr>s_name := n\<rparr>) = bwformat_in6_addr w spec"
  by (intro ext)
     (simp add: bwformat_in6_addr_def Let_def split_def ext_alignment_name name_update_outward
        split: option.split)

lemma sockaddr_fill_prefix_name:
  "sockaddr_fill_prefix (spec\<lparr>s_name := n\<rparr>) =
     (fst (sockaddr_fill_prefix spec), fst (snd (sockaddr_fill_prefix spec)),
      (snd (snd (sockaddr_fill_prefix spec)))\<lparr>s_name := n\<rparr>)"
  by (simp add: sockaddr_fill_prefix_def name_update_outward)

lemma sockaddr_flags_name [simp]: "sockaddr_flags (spec\<lparr>s_name := n\<rparr>) = sockaddr_flags spec"
  by (simp add: sockaddr_flags_def)

lemma sockaddr_addr_part_name [simp]:
  "sockaddr_addr_part w (spec\<lparr>s_name := n\<rparr>) = sockaddr_addr_part w spec"
  by (intro ext) (simp add: sockaddr_addr_part_def)

lemma sockaddr_port_part_name:
  "sockaddr_port_part w (spec\<lparr>s_name := n\<rparr>) a fp fc =
     (fst (sockaddr_port_part w spec a fp fc), (snd (sockaddr_port_part w spec a fp fc))\<lparr>s_name := n\<rparr>)"
  by (simp add: sockaddr_port_part_def Let_def name_update_outward)

lemma sockaddr_family_part_name [simp]:
  "sockaddr_family_part w (spec\<lparr>s_name := n\<rparr>) (local_spec\<lparr>s_name := n\<rparr>) =
   sockaddr_family_part w spec local_spec"
  by (intro ext) (simp add: sockaddr_family_part_def Let_def name_update_outward split: option.split)

lemma bwformat_sockaddr_name [simp]:
  "bwformat_sockaddr w (spec\<lparr>s_name := n\<rparr>) = bwformat_sockaddr w spec"
proof (intro ext)
  fix ptr addr
  obtain fp fc ls where f: "sockaddr_fill_prefix spec = (fp, fc, ls)"
    by (cases "sockaddr_fill_prefix spec")
  then have f': "sockaddr_fill_prefix (spec\<lparr>s_name := n\<rparr>) = (fp, fc, ls\<lparr>s_name := n\<rparr>)"
    by (simp add: sockaddr_fill_prefix_name)
  obtain a p fm where fl: "sockaddr_flags ls = (a, p, fm)"
    by (cases "sockaddr_flags ls")
  show "bwformat_sockaddr w (spec\<lparr>s_name := n\<rparr>) ptr addr = bwformat_sockaddr w spec ptr addr"
    by (simp add: bwformat_sockaddr_def f f' fl sockaddr_port_part_name split_def Let_def
        split: option.split)
qed

lemma bwformat_signed_name [simp]: "bwformat_signed w (spec\<lparr>s_name := n\<rparr>) = bwformat_signed w spec"
  by (intro ext) (simp add: bwformat_signed_def)

lemma bwformat_name: "bwformat w (spec\<lparr>s_name := n\<rparr>) x = bwformat w spec x"
  by (cases x) (simp_all add: bwformat_cstr_def bwformat_char_def bwformat_bool_def)

section \<open>The specifiers \<^verbatim>\<open>{0}\<close> and \<^verbatim>\<open>{}\<close>\<close>

lemma Spec_parse_Nil: "Spec_parse [] = DEFAULT"
  by (simp add: Spec_parse_def DEFAULT_def)

lemma Spec_parse_zero: "Spec_parse ''0'' = DEFAULT\<lparr>s_idx := 0, s_name := ''0''\<rparr>"
  by (simp add: Spec_parse_def DEFAULT_def is_digit_def to_number_def)

lemma has_valid_type_DEFAULT [simp]: "has_valid_type DEFAULT"
  by (simp add: has_valid_type_def DEFAULT_def DEFAULT_TYPE_def INVALID_TYPE_def)

lemma has_valid_type_NO_SPEC [simp]: "\<not> has_valid_type NO_SPEC"
  by (simp add: has_valid_type_def NO_SPEC_def)

lemma Adjust_Alignment_name [simp]:
  "Adjust_Alignment w (spec\<lparr>s_name := n\<rparr>) lw = Adjust_Alignment w spec lw"
  by (simp add: Adjust_Alignment_def)

lemma print_nv_step_explicit_zero:
  "print_nv_step names (Get_Arg_Formatter_Array [x]) (w, 0) ([], DEFAULT\<lparr>s_idx := 0, s_name := ''0''\<rparr>)
   = print_nv_step names (Get_Arg_Formatter_Array [x]) (w, 0) ([], DEFAULT)"
proof -
  have "s_type DEFAULT \<noteq> INVALID_TYPE" "s_name DEFAULT = []"
    by (simp_all add: DEFAULT_def DEFAULT_TYPE_def INVALID_TYPE_def)
  then show ?thesis
    by (simp add: print_nv_step_def Let_def Get_Arg_Formatter_Array_def Arg_Formatter_def
        has_valid_type_def bwformat_name split: option.split)
qed

text \<open>
  C8.  For every argument \<open>x\<close>, rendering the template \<^verbatim>\<open>{0}\<close> with the single argument
  \<open>x\<close> leaves the destination in the same state, byte for byte, as rendering the template
  \<^verbatim>\<open>{}\<close> with the same argument.
\<close>

theorem explicit_zero_equals_empty_specifier:
  "print w names ''{0}'' (Get_Arg_Formatter_Array [x]) =
   print w names ''{}'' (Get_Arg_Formatter_Array [x])"
proof -
  have t0: "tokenize ''{0}'' [] None = [([], DEFAULT\<lparr>s_idx := 0, s_name := ''0''\<rparr>)]"
    by (simp add: Spec_parse_zero)
  have t1: "tokenize ''{}'' [] None = [([], DEFAULT)]"
    by (simp add: Spec_parse_Nil)
  show ?thesis
    unfolding print_def print_nv_def t0 t1
    by (simp add: print_nv_step_explicit_zero)
qed

section \<open>Names that the registry does not know\<close>

lemma tokenize_invalid_name:
  "tokenize ''{{~{}~}}'' [] None = [(''{~'', DEFAULT), (''~}'', NO_SPEC)]"
  by (simp add: Spec_parse_Nil)

lemma err_invalid_name_text:
  "length (s_name spec) \<le> UINT_MAX \<Longrightarrow>
   err_invalid_name w spec = Some (bw_write w (''{~'' @ s_name spec @ ''~}''))"
  unfolding err_invalid_name_def print_def tokenize_invalid_name print_nv_def
  by (simp add: print_nv_step_def Let_def DEFAULT_def FixedBufferWriter_def bwformat_sv_def
      extent_def Adjust_Alignment_def render_aligned_def has_valid_type_def DEFAULT_TYPE_def
      INVALID_TYPE_def NO_SPEC_def UINT_MAX_def)

lemma print_nv_step_unnamed_registry:
  "s_name spec = [] \<Longrightarrow> 0 \<le> k \<Longrightarrow>
   print_nv_step names fa (w, k) (lit, spec) = print_nv_step no_names fa (w, k) (lit, spec)"
  by (simp add: print_nv_step_def Let_def)

lemma print_nv_step_invalid_registry:
  "\<not> has_valid_type spec \<Longrightarrow>
   print_nv_step names fa st (lit, spec) = print_nv_step no_names fa st (lit, spec)"
  by (cases st) (simp add: print_nv_step_invalid)

text \<open>
  The two templates the sources print with have no named specifier, so the registry the
  inner call renders against is never consulted; the model passes \<open>no_names\<close>.
\<close>

lemma invalid_name_template_registry:
  "print w names ''{{~{}~}}'' fa = print w no_names ''{{~{}~}}'' fa"
proof -
  have "s_name DEFAULT = []" "s_name NO_SPEC = []" by (simp_all add: DEFAULT_def NO_SPEC_def)
  then show ?thesis
    unfolding print_def tokenize_invalid_name print_nv_def
    by (simp add: print_nv_step_unnamed_registry [of _ _ names] print_nv_step_invalid_registry [of _ names]
        split: option.split)
qed

lemma not_ip_template_registry:
  "print w names ''*Not IP address [{}]*'' fa = print w no_names ''*Not IP address [{}]*'' fa"
proof -
  have t: "tokenize ''*Not IP address [{}]*'' [] None =
             [(''*Not IP address ['', DEFAULT), ('']*'', NO_SPEC)]"
    by (simp add: Spec_parse_Nil)
  have "s_name DEFAULT = []" "s_name NO_SPEC = []" by (simp_all add: DEFAULT_def NO_SPEC_def)
  then show ?thesis
    unfolding print_def t print_nv_def
    by (simp add: print_nv_step_unnamed_registry [of _ _ names] print_nv_step_invalid_registry [of _ names]
        split: option.split)
qed

text \<open>
  C3.  A bound resolver of a registry, called on a specifier with a (non-empty) name: when
  the map of the registry has no entry for the name, the resolver writes the diagnostic
  literal \<^verbatim>\<open>{~<name>~}\<close> to the output and returns, nothing fails; when the name is
  present, the generator stored for it is invoked on the output with the specifier.  (The
  name is at most \<^verbatim>\<open>UINT_MAX\<close> characters long, the default maximum width of a field.)
\<close>

theorem unknown_name_is_reported_in_band:
  assumes "s_name spec \<noteq> []" and "length (s_name spec) \<le> UINT_MAX"
  shows "(mp (s_name spec) = None \<longrightarrow>
            GlobalNames_Binding mp w spec = Some (bw_write w (''{~'' @ s_name spec @ ''~}'')))
       \<and> (\<forall>generator. mp (s_name spec) = Some generator \<longrightarrow>
            GlobalNames_Binding mp w spec = generator w spec)"
  using assms by (simp add: GlobalNames_Binding_def err_invalid_name_text)

theorem unknown_name_is_reported_in_band_witness:
  "s_name (Spec_parse ''missing'') \<noteq> [] \<and> length (s_name (Spec_parse ''missing'')) \<le> UINT_MAX
   \<and> GlobalNames_Binding Map.empty (FixedBufferWriter 100) (Spec_parse ''missing'') =
       Some (bw_write (FixedBufferWriter 100) ''{~missing~}'')
   \<and> GlobalNames_Binding [''tag'' \<mapsto> (\<lambda>w spec. Some (bw_write w ''T''))] (FixedBufferWriter 100)
        (Spec_parse ''tag'') = Some (bw_write (FixedBufferWriter 100) ''T'')
   \<and> map_option attempted
         (print (FixedBufferWriter 100) (GlobalNames_Binding Map.empty) ''<{missing}>'' [])
       = Some ''<{~missing~}>''"
proof -
  have n: "s_name (Spec_parse ''missing'') = ''missing''" by code_simp
  have h1: "s_name (Spec_parse ''missing'') \<noteq> []" by (simp add: n)
  have h2: "length (s_name (Spec_parse ''missing'')) \<le> UINT_MAX" by (simp add: n UINT_MAX_def)
  have m: "s_name (Spec_parse ''tag'') = ''tag''" by code_simp
  have g1: "s_name (Spec_parse ''tag'') \<noteq> []" by (simp add: m)
  have g2: "length (s_name (Spec_parse ''tag'')) \<le> UINT_MAX" by (simp add: m UINT_MAX_def)
  have a: "GlobalNames_Binding Map.empty (FixedBufferWriter 100) (Spec_parse ''missing'') =
       Some (bw_write (FixedBufferWriter 100) ''{~missing~}'')"
    using unknown_name_is_reported_in_band [OF h1 h2, of Map.empty "FixedBufferWriter 100"]
    by (simp add: n)
  have b: "GlobalNames_Binding [''tag'' \<mapsto> (\<lambda>w spec. Some (bw_write w ''T''))] (FixedBufferWriter 100)
        (Spec_parse ''tag'') = Some (bw_write (FixedBufferWriter 100) ''T'')"
    using unknown_name_is_reported_in_band [OF g1 g2,
        of "[''tag'' \<mapsto> (\<lambda>w spec. Some (bw_write w ''T''))]" "FixedBufferWriter 100"]
    by (simp add: m)
  have c: "map_option attempted
         (print (FixedBufferWriter 100) (GlobalNames_Binding Map.empty) ''<{missing}>'' [])
       = Some ''<{~missing~}>''"
    by code_simp
  show ?thesis by (intro conjI h1 h2 a b c)
qed

section \<open>The zero compression scan\<close>

lemma zero_seg_last: "zero_seg addr s e \<Longrightarrow> quad_is_zero addr e"
  by (simp add: zero_seg_def)

lemma zero_seg_first: "zero_seg addr s e \<Longrightarrow> quad_is_zero addr s"
  by (simp add: zero_seg_def)

lemma zero_seg_mem: "zero_seg addr s e \<Longrightarrow> s \<le> k \<Longrightarrow> k \<le> e \<Longrightarrow> quad_is_zero addr k"
  by (simp add: zero_seg_def)

lemma zero_seg_le: "zero_seg addr s e \<Longrightarrow> s \<le> e"
  by (simp add: zero_seg_def)

lemma zero_seg_shrink: "zero_seg addr s (Suc e) \<Longrightarrow> s \<le> e \<Longrightarrow> zero_seg addr s e"
  by (simp add: zero_seg_def)

lemma zero_seg_extend: "zero_seg addr s e \<Longrightarrow> quad_is_zero addr (Suc e) \<Longrightarrow> zero_seg addr s (Suc e)"
  by (auto simp add: zero_seg_def le_Suc_eq)

lemma zero_seg_single: "quad_is_zero addr n \<Longrightarrow> zero_seg addr n n"
  by (simp add: zero_seg_def)

lemma scan_inv_init: "scan_inv addr 0 (None, None)"
  by (simp add: scan_inv_def)

lemma zero_seg_sub:
  "zero_seg addr s e \<Longrightarrow> s \<le> s' \<Longrightarrow> s' \<le> e' \<Longrightarrow> e' \<le> e \<Longrightarrow> zero_seg addr s' e'"
  by (simp add: zero_seg_def)

lemma scan_inv_step:
  assumes inv: "scan_inv addr n st"
  shows "scan_inv addr (Suc n) (zero_scan_step addr st n)"
proof -
  obtain best cur where st: "st = (best, cur)" by (cases st)
  have C: "case cur of
             None \<Rightarrow> n = 0 \<or> \<not> quad_is_zero addr (n - 1)
           | Some c \<Rightarrow> c < n \<and> zero_seg addr c (n - 1) \<and> (c = 0 \<or> \<not> quad_is_zero addr (c - 1))"
    using inv st by (simp add: scan_inv_def)
  have B: "case best of
             None \<Rightarrow> (\<forall>s e. zero_seg addr s e \<and> e < n \<longrightarrow> s = e)
           | Some (l, u) \<Rightarrow> l < u \<and> u < n \<and> zero_seg addr l u
               \<and> (\<forall>s e. zero_seg addr s e \<and> e < n \<longrightarrow> e - s \<le> u - l \<and> (e - s = u - l \<longrightarrow> l \<le> s))"
    using inv st by (simp add: scan_inv_def)
  have old: "\<And>s e. zero_seg addr s e \<Longrightarrow> e < Suc n \<Longrightarrow> e \<noteq> n \<Longrightarrow> e < n" by simp
  show ?thesis
  proof (cases "quad_is_zero addr n")
    case False
    then have none: "\<And>s e. zero_seg addr s e \<Longrightarrow> e < Suc n \<Longrightarrow> e < n"
      by (metis zero_seg_last less_Suc_eq)
    have step: "zero_scan_step addr st n = (best, None)"
      using False st by (simp add: zero_scan_step_def)
    show ?thesis
    proof (cases best)
      case None
      then show ?thesis using B False none by (auto simp add: step scan_inv_def)
    next
      case (Some r)
      obtain l u where r: "r = (l, u)" by (cases r)
      show ?thesis using B False none Some r by (auto simp add: step scan_inv_def)
    qed
  next
    case Z: True
    show ?thesis
    proof (cases cur)
      case None
      have step: "zero_scan_step addr st n = (best, Some n)"
        using Z st None by (simp add: zero_scan_step_def)
      have prev: "n = 0 \<or> \<not> quad_is_zero addr (n - 1)" using C None by simp
      have F2: "\<And>s. zero_seg addr s n \<Longrightarrow> s = n"
      proof (rule ccontr)
        fix s assume seg: "zero_seg addr s n" and "s \<noteq> n"
        then have "s < n" using zero_seg_le [OF seg] by simp
        then have "quad_is_zero addr (n - 1)" "n \<noteq> 0"
          using zero_seg_mem [OF seg, of "n - 1"] by simp_all
        then show False using prev by simp
      qed
      have segs: "\<And>s e. zero_seg addr s e \<Longrightarrow> e < Suc n \<Longrightarrow> e < n \<or> (e = n \<and> s = n)"
        using F2 by (metis less_Suc_eq)
      have curpart: "n < Suc n \<and> zero_seg addr n (Suc n - 1) \<and> (n = 0 \<or> \<not> quad_is_zero addr (n - 1))"
        using Z prev by (simp add: zero_seg_single)
      show ?thesis
      proof (cases best)
        case None
        then show ?thesis using B curpart segs by (auto simp add: step scan_inv_def)
      next
        case (Some r)
        obtain l u where r: "r = (l, u)" by (cases r)
        have Bs: "l < u" "u < n" "zero_seg addr l u"
          "\<And>s e. zero_seg addr s e \<Longrightarrow> e < n \<Longrightarrow> e - s \<le> u - l \<and> (e - s = u - l \<longrightarrow> l \<le> s)"
          using B Some r by auto
        have "\<And>s e. zero_seg addr s e \<Longrightarrow> e < Suc n \<Longrightarrow> e - s \<le> u - l \<and> (e - s = u - l \<longrightarrow> l \<le> s)"
        proof -
          fix s e assume a: "zero_seg addr s e" "e < Suc n"
          from segs [OF a] show "e - s \<le> u - l \<and> (e - s = u - l \<longrightarrow> l \<le> s)"
          proof
            assume "e < n" then show ?thesis using Bs(4) a by blast
          next
            assume "e = n \<and> s = n" then show ?thesis using Bs(1) by simp
          qed
        qed
        then show ?thesis using Bs(1-3) curpart Some r by (simp add: step scan_inv_def) blast
      qed
    next
      case (Some c)
      have Cs: "c < n" "zero_seg addr c (n - 1)" "c = 0 \<or> \<not> quad_is_zero addr (c - 1)"
        using C Some by simp_all
      have segcn: "zero_seg addr c n"
        using zero_seg_extend [OF Cs(2)] Cs(1) Z by simp
      have F3: "\<And>s. zero_seg addr s n \<Longrightarrow> c \<le> s"
      proof (rule ccontr)
        fix s assume seg: "zero_seg addr s n" and "\<not> c \<le> s"
        then have "s < c" by simp
        then have "quad_is_zero addr (c - 1)" "c \<noteq> 0"
          using zero_seg_mem [OF seg, of "c - 1"] Cs(1) by simp_all
        then show False using Cs(3) by simp
      qed
      have curpart: "c < Suc n \<and> zero_seg addr c (Suc n - 1) \<and> (c = 0 \<or> \<not> quad_is_zero addr (c - 1))"
        using Cs segcn by simp
      have newbest: "\<And>s e. zero_seg addr s e \<Longrightarrow> e = n \<Longrightarrow> e - s \<le> n - c \<and> (e - s = n - c \<longrightarrow> c \<le> s)"
        using F3 by (metis diff_le_mono2)
      show ?thesis
      proof (cases best)
        case None
        have step: "zero_scan_step addr st n = (Some (c, n), Some c)"
          using Z st Some None by (simp add: zero_scan_step_def)
        have Bn: "\<And>s e. zero_seg addr s e \<Longrightarrow> e < n \<Longrightarrow> s = e" using B None by auto
        have "\<And>s e. zero_seg addr s e \<Longrightarrow> e < Suc n \<Longrightarrow> e - s \<le> n - c \<and> (e - s = n - c \<longrightarrow> c \<le> s)"
        proof -
          fix s e assume a: "zero_seg addr s e" "e < Suc n"
          show "e - s \<le> n - c \<and> (e - s = n - c \<longrightarrow> c \<le> s)"
          proof (cases "e = n")
            case True then show ?thesis using newbest [OF a(1)] by simp
          next
            case False
            then have "e < n" using a(2) by simp
            then have "s = e" using Bn a(1) by simp
            then show ?thesis using Cs(1) by simp
          qed
        qed
        then show ?thesis using curpart Cs(1) segcn by (simp add: step scan_inv_def) blast
      next
        case (Some r)
        obtain l u where r: "r = (l, u)" by (cases r)
        have Bs: "l < u" "u < n" "zero_seg addr l u"
          "\<And>s e. zero_seg addr s e \<Longrightarrow> e < n \<Longrightarrow> e - s \<le> u - l \<and> (e - s = u - l \<longrightarrow> l \<le> s)"
          using B Some r by auto
        show ?thesis
        proof (cases "u - l < n - c")
          case True
          have step: "zero_scan_step addr st n = (Some (c, n), Some c)"
            using Z st \<open>cur = Some c\<close> Some r True by (simp add: zero_scan_step_def)
          have "\<And>s e. zero_seg addr s e \<Longrightarrow> e < Suc n \<Longrightarrow> e - s \<le> n - c \<and> (e - s = n - c \<longrightarrow> c \<le> s)"
          proof -
            fix s e assume a: "zero_seg addr s e" "e < Suc n"
            show "e - s \<le> n - c \<and> (e - s = n - c \<longrightarrow> c \<le> s)"
            proof (cases "e = n")
              case True then show ?thesis using newbest [OF a(1)] by simp
            next
              case False
              then have "e < n" using a(2) by simp
              then have "e - s \<le> u - l" using Bs(4) a(1) by blast
              then show ?thesis using True by simp
            qed
          qed
          then show ?thesis using curpart Cs(1) segcn by (simp add: step scan_inv_def) blast
        next
          case False
          have step: "zero_scan_step addr st n = (Some (l, u), Some c)"
            using Z st \<open>cur = Some c\<close> Some r False by (simp add: zero_scan_step_def)
          have lc: "l \<le> c"
          proof (rule ccontr)
            assume "\<not> l \<le> c"
            then have cl: "c < l" by simp
            have "zero_seg addr c u"
              using zero_seg_sub [OF Cs(2), of c u] Bs(1,2) cl by simp
            then have "u - c \<le> u - l" using Bs(4) Bs(2) by blast
            then show False using cl Bs(1) by simp
          qed
          have "\<And>s e. zero_seg addr s e \<Longrightarrow> e < Suc n \<Longrightarrow> e - s \<le> u - l \<and> (e - s = u - l \<longrightarrow> l \<le> s)"
          proof -
            fix s e assume a: "zero_seg addr s e" "e < Suc n"
            show "e - s \<le> u - l \<and> (e - s = u - l \<longrightarrow> l \<le> s)"
            proof (cases "e = n")
              case True
              then have "c \<le> s" using F3 a(1) by simp
              then show ?thesis using True False lc by simp
            next
              case False
              then have "e < n" using a(2) by simp
              then show ?thesis using Bs(4) a(1) by blast
            qed
          qed
          then show ?thesis using curpart Bs(1-3) by (simp add: step scan_inv_def) blast
        qed
      qed
    qed
  qed
qed

lemma scan_inv_fold: "scan_inv addr n (foldl (zero_scan_step addr) (None, None) [0..<n])"
  by (induction n) (simp_all add: scan_inv_init scan_inv_step)

lemma zero_scan_None:
  "zero_scan addr = None \<Longrightarrow> zero_seg addr s e \<Longrightarrow> e < 8 \<Longrightarrow> s = e"
  using scan_inv_fold [of addr 8]
  by (cases "foldl (zero_scan_step addr) (None, None) [0..<8]")
     (auto simp add: zero_scan_def scan_inv_def)

lemma zero_scan_Some:
  assumes "zero_scan addr = Some (l, u)"
  shows "l < u \<and> u < 8 \<and> zero_seg addr l u
         \<and> (\<forall>s e. zero_seg addr s e \<and> e < 8 \<longrightarrow> e - s \<le> u - l \<and> (e - s = u - l \<longrightarrow> l \<le> s))"
  using scan_inv_fold [of addr 8] assms
  by (cases "foldl (zero_scan_step addr) (None, None) [0..<8]")
     (auto simp add: zero_scan_def scan_inv_def)

section \<open>The output loop of the IPv6 formatter\<close>

lemma upt_8: "[0..<8] = [0, 1, 2, 3, 4, 5, 6, 7]"
  by (simp add: upt_rec)

lemma less_8_cases: "(u::nat) < 8 \<Longrightarrow> u = 0 \<or> u = 1 \<or> u = 2 \<or> u = 3 \<or> u = 4 \<or> u = 5 \<or> u = 6 \<or> u = 7"
  by arith

lemma in6_pieces_None:
  "concat (map (in6_piece t None) [0..<8]) = join_colon (map t [0..<8])"
  by (simp add: upt_8 in6_piece_def)

lemma in6_pieces_Some:
  assumes "l < u" "u < 8"
  shows "concat (map (in6_piece t (Some (l, u))) [0..<8]) =
         join_colon (take l (map t [0..<8])) @ ''::'' @ join_colon (drop (Suc u) (map t [0..<8]))"
proof -
  have "l < 8" using assms by simp
  from less_8_cases [OF this] less_8_cases [OF assms(2)] assms(1)
  show ?thesis
    by (elim disjE) (simp_all add: upt_8 in6_piece_def)
qed

lemma foldl_bw_write:
  "(\<And>w i. step w i = bw_write w (f i)) \<Longrightarrow> foldl step w xs = bw_write w (concat (map f xs))"
  by (induction xs arbitrary: w) simp_all

lemma bwformat_unsigned_text:
  "bwformat_unsigned w spec n = bw_write w (render_aligned spec (integer_text spec n False))"
  by (simp add: bwformat_unsigned_def Format_Integer_def)

lemma in6_output_step_piece:
  "in6_output_step addr local_spec best w i =
   bw_write w (in6_piece (in6_group_text addr local_spec) best i)"
  by (simp add: in6_output_step_def in6_piece_def in6_group_text_def Let_def
        bwformat_unsigned_text split: option.split)

lemma bwformat_in6_addr_unaligned:
  assumes "\<not> fst (ext_alignment spec)" and "has_numeric_type spec \<noteq> None"
  shows "bwformat_in6_addr w spec addr =
         Some (foldl (in6_output_step addr (in6_local_spec spec) (zero_scan addr)) w [0..<8])"
proof -
  have "ext_alignment spec = (False, spec)"
    using assms(1) by (auto simp add: ext_alignment_def split: if_splits)
  then show ?thesis
    using assms(2) by (auto simp add: bwformat_in6_addr_def in6_local_spec_def)
qed

lemma bwformat_in6_addr_pieces:
  assumes "\<not> fst (ext_alignment spec)" and "has_numeric_type spec \<noteq> None"
  shows "bwformat_in6_addr w spec addr =
         Some (bw_write w (concat (map (in6_piece (in6_group_text addr (in6_local_spec spec))
                                          (zero_scan addr)) [0..<8])))"
  unfolding bwformat_in6_addr_unaligned [OF assms]
  by (simp add: foldl_bw_write [OF in6_output_step_piece])

text \<open>A type byte of \<^verbatim>\<open>0x80\<close> or more: the formatter reads outside the table.\<close>

lemma bwformat_in6_addr_out_of_bounds:
  "(128 :: nat) \<le> of_char (s_type spec) \<Longrightarrow> bwformat_in6_addr w spec addr = None"
  by (simp add: bwformat_in6_addr_def Let_def split_def ext_alignment_def has_numeric_type_eq)

lemma to_radix_zero: "to_radix r upper 0 = ''0''"
  by (subst to_radix.simps) (auto simp add: digit_of_def)

lemma upper_entry_x [simp]: "\<not> upper_entry CHR ''x''" "upper_entry CHR ''X''"
  by (simp_all add: upper_entry_def prop_data_def TYPE_CHAR_def NUMERIC_TYPE_CHAR_def
      UPPER_TYPE_CHAR_def)

lemma has_numeric_type_X: "s_type spec = CHR ''X'' \<Longrightarrow> has_numeric_type spec = Some True"
  "s_type spec = CHR ''x'' \<Longrightarrow> has_numeric_type spec = Some True"
  by (simp_all add: has_numeric_type_eq prop_data_def TYPE_CHAR_def NUMERIC_TYPE_CHAR_def
      UPPER_TYPE_CHAR_def)

lemma in6_group_text_hex:
  assumes "has_numeric_type spec = Some False \<or> s_type spec = CHR ''x'' \<or> s_type spec = CHR ''X''"
    and "s_sign spec = CHR ''-''" and "\<not> s_radix_lead_p spec" and "4 \<le> s_max spec"
  shows "in6_group_text addr (in6_local_spec spec) i =
         to_radix 16 (s_type spec = CHR ''X'') (unat (quad_value addr i))"
proof -
  let ?n = "unat (quad_value addr i)"
  have "?n < 2 ^ LENGTH(16)" by (rule unsigned_less)
  then have "?n < 16 ^ 4" by simp
  then have len: "length (to_radix 16 (s_type spec = CHR ''X'') ?n) \<le> 4"
    by (intro to_radix_length_pow) simp_all
  have tx: "integer_text (in6_local_spec spec) ?n False = to_radix 16 (s_type spec = CHR ''X'') ?n"
  proof (cases "has_numeric_type spec = Some False")
    case False
    then have "s_type spec = CHR ''x'' \<or> s_type spec = CHR ''X''" using assms(1) by simp
    then show ?thesis using assms(2,3)
      by (auto simp add: integer_text_def in6_local_spec_def radix_of_def has_numeric_type_X)
  next
    case True
    then have "s_type spec \<noteq> CHR ''X''" using has_numeric_type_X(1) [of spec] by auto
    then show ?thesis using True assms(2,3)
      by (simp add: integer_text_def in6_local_spec_def radix_of_def)
  qed
  have "s_min (in6_local_spec spec) = 0" "s_max (in6_local_spec spec) = s_max spec"
    by (simp_all add: in6_local_spec_def)
  then show ?thesis
    using len assms(4) by (simp add: in6_group_text_def tx render_aligned_fits)
qed

lemma in6_group_text_zero:
  assumes "quad_value addr i = 0"
    and "s_sign spec = CHR ''-''" and "\<not> s_radix_lead_p spec" and "1 \<le> s_max spec"
  shows "in6_group_text addr (in6_local_spec spec) i = ''0''"
proof -
  have tx: "integer_text (in6_local_spec spec) 0 False = ''0''"
    using assms(2,3) by (simp add: integer_text_def in6_local_spec_def to_radix_zero)
  have "s_min (in6_local_spec spec) = 0" "s_max (in6_local_spec spec) = s_max spec"
    by (simp_all add: in6_local_spec_def)
  then show ?thesis
    using assms(1,4) by (simp add: in6_group_text_def tx render_aligned_fits)
qed

lemma octet_lt: "unat (x :: 8 word) < 256"
  using unsigned_less [of x] by simp

lemma cat_unat:
  fixes a b :: "8 word"
  shows "unat (push_bit 8 (ucast a) + ucast b :: 16 word) = 256 * unat a + unat b"
proof -
  have la: "unat a < 256" and lb: "unat b < 256" by (rule octet_lt)+
  have a: "unat (ucast a :: 16 word) = unat a"
    using la by (simp add: unsigned_ucast_eq take_bit_nat_eq_self)
  have b: "unat (ucast b :: 16 word) = unat b"
    using lb by (simp add: unsigned_ucast_eq take_bit_nat_eq_self)
  show ?thesis using la lb
    by (simp add: unat_word_ariths unsigned_push_bit_eq a b push_bit_eq_mult take_bit_eq_mod)
qed

lemma quad_value_unat:
  "unat (quad_value addr i) = 256 * unat (addr ! (2 * i)) + unat (addr ! (2 * i + 1))"
  unfolding quad_value_def by (rule cat_unat)

text \<open>The scan's test for a zero group agrees with the value the output loop formats.\<close>

lemma quad_is_zero_iff: "quad_is_zero addr i \<longleftrightarrow> quad_value addr i = 0"
proof -
  have "quad_value addr i = 0 \<longleftrightarrow> unat (quad_value addr i) = 0"
    by (simp add: unat_0_iff)
  also have "\<dots> \<longleftrightarrow> unat (addr ! (2 * i)) = 0 \<and> unat (addr ! (2 * i + 1)) = 0"
    by (simp add: quad_value_unat)
  also have "\<dots> \<longleftrightarrow> quad_is_zero addr i"
    by (simp add: quad_is_zero_def unat_0_iff)
  finally show ?thesis by simp
qed

section \<open>The scan finds the leftmost longest run\<close>

lemma zero_run_seg: "0 < n \<Longrightarrow> zero_run addr (n, s) \<longleftrightarrow> zero_seg addr s (s + n - 1)"
  by (auto simp add: zero_run_def zero_seg_def list_all_iff quad_is_zero_iff)

lemma run_candidates_set: "(n, s) \<in> set run_candidates \<longleftrightarrow> 2 \<le> n \<and> s + n \<le> 8"
proof -
  have "set run_candidates = (\<Union>n \<in> {2..<9}. (\<lambda>s. (n, s)) ` {0..<9 - n})"
    unfolding run_candidates_def by (simp only: set_concat set_map set_rev set_upt image_image)
  then have "(n, s) \<in> set run_candidates \<longleftrightarrow> n \<in> {2..<9} \<and> s \<in> {0..<9 - n}"
    by (simp add: image_iff)
  then show ?thesis by auto
qed

lemma run_candidates_sorted: "sorted_wrt run_before run_candidates"
  by code_simp

lemma find_first:
  assumes "sorted_wrt R xs" and "x \<in> set xs" and "P x"
    and "\<And>y. y \<in> set xs \<Longrightarrow> P y \<Longrightarrow> y = x \<or> R x y"
    and "\<And>y. R x y \<Longrightarrow> R y x \<Longrightarrow> False"
  shows "find P xs = Some x"
  using assms(1,2,4)
proof (induction xs)
  case Nil
  then show ?case by simp
next
  case (Cons y ys)
  show ?case
  proof (cases "y = x")
    case True
    then show ?thesis using assms(3) by simp
  next
    case False
    then have mem: "x \<in> set ys" using Cons.prems(2) by simp
    then have "R y x" using Cons.prems(1) by simp
    then have "\<not> P y" using Cons.prems(3) [of y] False assms(5) by auto
    moreover have "find P ys = Some x"
      using Cons.IH mem Cons.prems(1,3) by simp
    ultimately show ?thesis by simp
  qed
qed

text \<open>The range the scan selects is the leftmost longest run of two or more zero groups.\<close>

lemma zero_scan_longest_zero_run: "zero_scan addr = longest_zero_run addr"
proof (cases "zero_scan addr")
  case None
  have "\<not> (\<exists>x \<in> set run_candidates. zero_run addr x)"
  proof
    assume "\<exists>x \<in> set run_candidates. zero_run addr x"
    then obtain n s where x: "(n, s) \<in> set run_candidates" "zero_run addr (n, s)" by auto
    then have b: "2 \<le> n" "s + n \<le> 8" by (simp_all add: run_candidates_set)
    then have "zero_seg addr s (s + n - 1)" using x(2) by (simp add: zero_run_seg)
    then have "s = s + n - 1" using zero_scan_None [OF None] b by simp
    then show False using b by simp
  qed
  then have "find (zero_run addr) run_candidates = None" by (simp add: find_None_iff)
  then show ?thesis by (simp add: None longest_zero_run_def)
next
  case (Some r)
  obtain l u where r: "r = (l, u)" by (cases r)
  have S: "l < u" "u < 8" "zero_seg addr l u"
    "\<And>s e. zero_seg addr s e \<Longrightarrow> e < 8 \<Longrightarrow> e - s \<le> u - l \<and> (e - s = u - l \<longrightarrow> l \<le> s)"
    using zero_scan_Some [of addr l u] Some r by auto
  let ?x = "(u - l + 1, l)"
  have mem: "?x \<in> set run_candidates" using S(1,2) by (simp add: run_candidates_set)
  have px: "zero_run addr ?x" using S(1,3) by (simp add: zero_run_seg)
  have others: "\<And>y. y \<in> set run_candidates \<Longrightarrow> zero_run addr y \<Longrightarrow> y = ?x \<or> run_before ?x y"
  proof -
    fix y assume y: "y \<in> set run_candidates" "zero_run addr y"
    obtain n s where ns: "y = (n, s)" by (cases y)
    have b: "2 \<le> n" "s + n \<le> 8" using y(1) ns by (simp_all add: run_candidates_set)
    then have "zero_seg addr s (s + n - 1)" using y(2) ns by (simp add: zero_run_seg)
    then have "s + n - 1 - s \<le> u - l \<and> (s + n - 1 - s = u - l \<longrightarrow> l \<le> s)"
      using S(4) [of s "s + n - 1"] b by simp
    then show "y = ?x \<or> run_before ?x y"
      using b S(1) by (auto simp add: ns run_before_def)
  qed
  have asym: "\<And>y. run_before ?x y \<Longrightarrow> run_before y ?x \<Longrightarrow> False"
    by (auto simp add: run_before_def)
  have "find (zero_run addr) run_candidates = Some ?x"
    using run_candidates_sorted mem px others asym by (rule find_first)
  then show ?thesis using S(1) by (simp add: Some r longest_zero_run_def)
qed

section \<open>Runs of a single zero group\<close>

lemma isolated_zero_outside_range:
  assumes "zero_scan addr = Some (l, u)"
    and "quad_is_zero addr i"
    and "i = 0 \<or> \<not> quad_is_zero addr (i - 1)"
    and "i = 7 \<or> \<not> quad_is_zero addr (i + 1)"
  shows "l < u \<and> \<not> (l \<le> i \<and> i \<le> u)"
proof -
  have S: "l < u" "u < 8" "zero_seg addr l u"
    using zero_scan_Some [OF assms(1)] by simp_all
  have "\<not> (l \<le> i \<and> i \<le> u)"
  proof
    assume in_range: "l \<le> i \<and> i \<le> u"
    show False
    proof (cases "i = u")
      case True
      then have "quad_is_zero addr (i - 1)" "i \<noteq> 0"
        using zero_seg_mem [OF S(3), of "i - 1"] S(1) by simp_all
      then show False using assms(3) by simp
    next
      case False
      then have "quad_is_zero addr (i + 1)" "i \<noteq> 7"
        using zero_seg_mem [OF S(3), of "i + 1"] in_range S(2) by simp_all
      then show False using assms(4) by simp
    qed
  qed
  then show ?thesis using S(1) by simp
qed

text \<open>
  C10 (as amended).  For an address rendered without the fixed-alignment extension, by a
  specifier with a 7-bit type character, the default sign style, no radix lead and a
  maximum width of at least one: the range the scan selects for compression always has at
  least two groups, and a zero group \<open>i\<close> whose neighbours are not zero lies outside it
  and is rendered as the group \<^verbatim>\<open>0\<close>, followed by its colon unless it is the last group.
  The rest of the output is what the loop writes for the groups before and after \<open>i\<close>.
\<close>

theorem single_zero_group_is_not_compressed:
  assumes "\<not> fst (ext_alignment spec)" and "of_char (s_type spec) < (128 :: nat)"
    and "s_sign spec = CHR ''-''" and "\<not> s_radix_lead_p spec" and "1 \<le> s_max spec"
    and "i < 8" and "quad_is_zero addr i"
    and "i = 0 \<or> \<not> quad_is_zero addr (i - 1)"
    and "i = 7 \<or> \<not> quad_is_zero addr (i + 1)"
    and "P = in6_piece (in6_group_text addr (in6_local_spec spec)) (zero_scan addr)"
  shows "(\<forall>l u. zero_scan addr = Some (l, u) \<longrightarrow> l < u \<and> \<not> (l \<le> i \<and> i \<le> u))
       \<and> bwformat_in6_addr w spec addr =
           Some (bw_write w (concat (map P [0..<i]) @ ''0'' @ (if i \<noteq> 7 then '':'' else [])
                               @ concat (map P [Suc i..<8])))"
proof -
  have nt: "has_numeric_type spec \<noteq> None"
    using assms(2) by (simp add: has_numeric_type_eq)
  have out: "\<forall>l u. zero_scan addr = Some (l, u) \<longrightarrow> l < u \<and> \<not> (l \<le> i \<and> i \<le> u)"
    using isolated_zero_outside_range [OF _ assms(7-9)] by blast
  have "quad_value addr i = 0" using assms(7) by (simp add: quad_is_zero_iff)
  then have tx: "in6_group_text addr (in6_local_spec spec) i = ''0''"
    using assms(3-5) by (rule in6_group_text_zero)
  have Pi: "P i = ''0'' @ (if i \<noteq> 7 then '':'' else [])"
    using out tx by (cases "zero_scan addr") (auto simp add: assms(10) in6_piece_def)
  have "[0..<8] = [0..<i] @ i # [Suc i..<8]"
    using assms(6) by (metis less_imp_le_nat upt_add_eq_append upt_conv_Cons le_add_diff_inverse zero_le)
  then have "concat (map P [0..<8]) = concat (map P [0..<i]) @ P i @ concat (map P [Suc i..<8])"
    by simp
  then show ?thesis
    using out Pi bwformat_in6_addr_pieces [OF assms(1) nt, of w addr] assms(10) by simp
qed

theorem single_zero_group_is_not_compressed_witness:
  "\<not> fst (ext_alignment DEFAULT) \<and> of_char (s_type DEFAULT) < (128 :: nat)
   \<and> s_sign DEFAULT = CHR ''-'' \<and> \<not> s_radix_lead_p DEFAULT
   \<and> 1 \<le> s_max DEFAULT \<and> (1::nat) < 8
   \<and> quad_is_zero (in6_of_groups [0x2001, 0, 1, 0, 0, 0, 0, 5]) 1
   \<and> zero_scan (in6_of_groups [0x2001, 0, 1, 0, 0, 0, 0, 5]) = Some (3, 6)
   \<and> bwformat_in6_addr (FixedBufferWriter 64) DEFAULT (in6_of_groups [0x2001, 0, 1, 0, 0, 0, 0, 5])
       = Some (bw_write (FixedBufferWriter 64) ''2001:0:1::5'')"
proof -
  let ?a = "in6_of_groups [0x2001, 0, 1, 0, 0, 0, 0, 5]"
  let ?P = "in6_piece (in6_group_text ?a (in6_local_spec DEFAULT)) (zero_scan ?a)"
  have h1: "\<not> fst (ext_alignment DEFAULT)" by code_simp
  have ht: "of_char (s_type DEFAULT) < (128 :: nat)" by (simp add: DEFAULT_def DEFAULT_TYPE_def)
  have h2: "s_sign DEFAULT = CHR ''-''" by code_simp
  have h3: "\<not> s_radix_lead_p DEFAULT" by code_simp
  have h4: "1 \<le> s_max DEFAULT" by code_simp
  have h5: "(1::nat) < 8" by simp
  have h6: "quad_is_zero ?a 1" by code_simp
  have z: "zero_scan ?a = Some (3, 6)" by code_simp
  have h7: "(1::nat) = 0 \<or> \<not> quad_is_zero ?a (1 - 1)" by code_simp
  have h8: "(1::nat) = 7 \<or> \<not> quad_is_zero ?a (1 + 1)" by code_simp
  have pre: "concat (map ?P [0..<1]) = ''2001:''" by code_simp
  have post: "concat (map ?P [Suc 1..<8]) = ''1::5''" by code_simp
  note t = single_zero_group_is_not_compressed [OF h1 ht h2 h3 h4 h5 h6 h7 h8 refl,
      of "FixedBufferWriter 64", THEN conjunct2]
  have r: "bwformat_in6_addr (FixedBufferWriter 64) DEFAULT ?a =
             Some (bw_write (FixedBufferWriter 64) ''2001:0:1::5'')"
    using t unfolding pre post by simp
  show ?thesis by (intro conjI h1 ht h2 h3 h4 h5 h6 z r)
qed

text \<open>
  The claim as stated fails for the text of the group: the groups are formatted with the
  sign style and the radix lead of the specifier, so the zero group that stands alone in
  \<^verbatim>\<open>2001:0:1:0:0:0:0:5\<close> is rendered as \<^verbatim>\<open>0x0\<close> under a radix lead and as \<^verbatim>\<open>+0\<close>
  under the sign style \<^verbatim>\<open>+\<close>.  It is not collapsed in either case.
\<close>

theorem zero_group_text_counterexample:
  "map (in6_group_text (in6_of_groups [0x2001, 0, 1, 0, 0, 0, 0, 5])
          (in6_local_spec (DEFAULT\<lparr>s_radix_lead_p := True\<rparr>))) [0..<8] ! 1 = ''0x0''
   \<and> bwformat_in6_addr (FixedBufferWriter 64) (DEFAULT\<lparr>s_radix_lead_p := True\<rparr>)
        (in6_of_groups [0x2001, 0, 1, 0, 0, 0, 0, 5])
       = Some (bw_write (FixedBufferWriter 64) ''0x2001:0x0:0x1::0x5'')
   \<and> bwformat_in6_addr (FixedBufferWriter 64) (DEFAULT\<lparr>s_sign := CHR ''+''\<rparr>)
        (in6_of_groups [0x2001, 0, 1, 0, 0, 0, 0, 5])
       = Some (bw_write (FixedBufferWriter 64) ''+2001:+0:+1::+5'')"
proof -
  let ?a = "in6_of_groups [0x2001, 0, 1, 0, 0, 0, 0, 5]"
  let ?r = "DEFAULT\<lparr>s_radix_lead_p := True\<rparr>"
  let ?s = "DEFAULT\<lparr>s_sign := CHR ''+''\<rparr>"
  have a1: "\<not> fst (ext_alignment ?r)" and a2: "\<not> fst (ext_alignment ?s)" by code_simp+
  have n1: "has_numeric_type ?r \<noteq> None" and n2: "has_numeric_type ?s \<noteq> None"
    by (simp_all add: has_numeric_type_eq DEFAULT_def DEFAULT_TYPE_def)
  have z: "zero_scan ?a = Some (3, 6)" by code_simp
  have l1: "in6_local_spec ?r = ?r\<lparr>s_min := 0, s_type := CHR ''x''\<rparr>"
    and l2: "in6_local_spec ?s = ?s\<lparr>s_min := 0, s_type := CHR ''x''\<rparr>"
    by (simp_all add: in6_local_spec_def has_numeric_type_eq DEFAULT_def DEFAULT_TYPE_def
        prop_data_def TYPE_CHAR_def NUMERIC_TYPE_CHAR_def)
  have t1: "map (in6_group_text ?a (in6_local_spec ?r)) [0..<8] =
             [''0x2001'', ''0x0'', ''0x1'', ''0x0'', ''0x0'', ''0x0'', ''0x0'', ''0x5'']"
    unfolding l1 by code_simp
  have t2: "map (in6_group_text ?a (in6_local_spec ?s)) [0..<8] =
             [''+2001'', ''+0'', ''+1'', ''+0'', ''+0'', ''+0'', ''+0'', ''+5'']"
    unfolding l2 by code_simp
  have r1: "bwformat_in6_addr (FixedBufferWriter 64) ?r ?a =
              Some (bw_write (FixedBufferWriter 64) ''0x2001:0x0:0x1::0x5'')"
    unfolding bwformat_in6_addr_pieces [OF a1 n1] z
    by (simp add: in6_pieces_Some t1)
  have r2: "bwformat_in6_addr (FixedBufferWriter 64) ?s ?a =
              Some (bw_write (FixedBufferWriter 64) ''+2001:+0:+1::+5'')"
    unfolding bwformat_in6_addr_pieces [OF a2 n2] z
    by (simp add: in6_pieces_Some t2)
  show ?thesis unfolding t1 by (intro conjI r1 r2) simp
qed

section \<open>Zero compression of an IPv6 address\<close>

text \<open>
  C4 (as amended).  For an address rendered without the fixed-alignment extension, by a
  specifier with the default sign style, no radix lead, a maximum width of at least four
  and a 7-bit type character that is not a numeric type other than \<^verbatim>\<open>x\<close> or \<^verbatim>\<open>X\<close>: the
  formatter collapses to \<^verbatim>\<open>::\<close> exactly the longest run of two or more consecutive zero
  groups, the leftmost one when several have that length, and renders the groups before
  and after it in hexadecimal, joined by colons (upper-case digits for type \<^verbatim>\<open>X\<close>,
  lower-case otherwise); when no two adjacent groups are zero, nothing is collapsed and
  all eight groups are rendered.  The range is the one \<open>longest_zero_run\<close> finds.
\<close>

theorem in6_zero_compression:
  assumes "\<not> fst (ext_alignment spec)"
    and "has_numeric_type spec = Some False \<or> s_type spec = CHR ''x'' \<or> s_type spec = CHR ''X''"
    and "s_sign spec = CHR ''-''" and "\<not> s_radix_lead_p spec" and "4 \<le> s_max spec"
    and "gs = map (\<lambda>i. to_radix 16 (s_type spec = CHR ''X'') (unat (quad_value addr i))) [0..<8]"
  shows "zero_scan addr = longest_zero_run addr
       \<and> (case zero_scan addr of
           None \<Rightarrow>
             (\<forall>s e. zero_seg addr s e \<and> e < 8 \<longrightarrow> s = e)
             \<and> bwformat_in6_addr w spec addr = Some (bw_write w (join_colon gs))
         | Some (l, u) \<Rightarrow>
             l < u \<and> u < 8 \<and> zero_seg addr l u
             \<and> (\<forall>s e. zero_seg addr s e \<and> e < 8 \<longrightarrow> e - s \<le> u - l \<and> (e - s = u - l \<longrightarrow> l \<le> s))
             \<and> bwformat_in6_addr w spec addr =
                 Some (bw_write w (join_colon (take l gs) @ ''::'' @ join_colon (drop (Suc u) gs))))"
proof -
  have nt: "has_numeric_type spec \<noteq> None"
    using assms(2) has_numeric_type_X [of spec] by auto
  have t: "in6_group_text addr (in6_local_spec spec) =
           (\<lambda>i. to_radix 16 (s_type spec = CHR ''X'') (unat (quad_value addr i)))"
    by (intro ext in6_group_text_hex assms(2-5))
  have out: "bwformat_in6_addr w spec addr =
     Some (bw_write w (concat (map (in6_piece
        (\<lambda>i. to_radix 16 (s_type spec = CHR ''X'') (unat (quad_value addr i))) (zero_scan addr)) [0..<8])))"
    using bwformat_in6_addr_pieces [OF assms(1) nt, of w addr] by (simp add: t)
  show ?thesis
  proof (cases "zero_scan addr")
    case None
    have "\<forall>s e. zero_seg addr s e \<and> e < 8 \<longrightarrow> s = e"
      using zero_scan_None [OF None] by blast
    then show ?thesis
      using out by (simp add: None in6_pieces_None assms(6) zero_scan_longest_zero_run [symmetric])
  next
    case (Some r)
    obtain l u where r: "r = (l, u)" by (cases r)
    have S: "l < u \<and> u < 8 \<and> zero_seg addr l u
         \<and> (\<forall>s e. zero_seg addr s e \<and> e < 8 \<longrightarrow> e - s \<le> u - l \<and> (e - s = u - l \<longrightarrow> l \<le> s))"
      using zero_scan_Some [of addr l u] Some r by simp
    then have "l < u" "u < 8" by simp_all
    then have "bwformat_in6_addr w spec addr =
                 Some (bw_write w (join_colon (take l gs) @ ''::'' @ join_colon (drop (Suc u) gs)))"
      unfolding out Some r assms(6) by (simp only: in6_pieces_Some)
    then show ?thesis using S by (simp add: Some r zero_scan_longest_zero_run [symmetric])
  qed
qed

theorem in6_zero_compression_witness:
  "\<not> fst (ext_alignment DEFAULT)
   \<and> has_numeric_type DEFAULT = Some False
   \<and> s_sign DEFAULT = CHR ''-'' \<and> \<not> s_radix_lead_p DEFAULT \<and> 4 \<le> s_max DEFAULT
   \<and> zero_scan (in6_of_groups [0x2001, 0, 0, 0, 0, 0, 0, 1]) = Some (1, 6)
   \<and> bwformat_in6_addr (FixedBufferWriter 64) DEFAULT (in6_of_groups [0x2001, 0, 0, 0, 0, 0, 0, 1])
       = Some (bw_write (FixedBufferWriter 64) ''2001::1'')"
proof -
  let ?a = "in6_of_groups [0x2001, 0, 0, 0, 0, 0, 0, 1]"
  let ?gs = "map (\<lambda>i. to_radix 16 (s_type DEFAULT = CHR ''X'') (unat (quad_value ?a i))) [0..<8]"
  have h1: "\<not> fst (ext_alignment DEFAULT)" by code_simp
  have n: "has_numeric_type DEFAULT = Some False"
    by (simp add: has_numeric_type_eq DEFAULT_def DEFAULT_TYPE_def prop_data_def TYPE_CHAR_def
        NUMERIC_TYPE_CHAR_def)
  then have h2: "has_numeric_type DEFAULT = Some False \<or> s_type DEFAULT = CHR ''x'' \<or> s_type DEFAULT = CHR ''X''"
    by simp
  have h3: "s_sign DEFAULT = CHR ''-''" by code_simp
  have h4: "\<not> s_radix_lead_p DEFAULT" by code_simp
  have h5: "4 \<le> s_max DEFAULT" by code_simp
  have z: "zero_scan ?a = Some (1, 6)" by code_simp
  have g: "join_colon (take 1 ?gs) @ ''::'' @ join_colon (drop (Suc 6) ?gs) = ''2001::1''"
    by code_simp
  have "bwformat_in6_addr (FixedBufferWriter 64) DEFAULT ?a =
          Some (bw_write (FixedBufferWriter 64)
                  (join_colon (take 1 ?gs) @ ''::'' @ join_colon (drop (Suc 6) ?gs)))"
    using in6_zero_compression [OF h1 h2 h3 h4 h5 refl, of ?a "FixedBufferWriter 64", THEN conjunct2]
    unfolding z by simp
  then have r: "bwformat_in6_addr (FixedBufferWriter 64) DEFAULT ?a =
                  Some (bw_write (FixedBufferWriter 64) ''2001::1'')"
    unfolding g .
  show ?thesis by (intro conjI h1 n h3 h4 h5 z r)
qed

text \<open>
  The claim as stated fails where the longest run of zero groups is a single group: in
  \<^verbatim>\<open>2001:0:db8:85a3:8a2e:370:7334:1\<close> the run is rendered as the group \<^verbatim>\<open>0\<close> and nothing
  collapses.
\<close>

theorem in6_single_zero_run_counterexample:
  "map_option attempted (bwformat_in6_addr (FixedBufferWriter 64) DEFAULT
      (in6_of_groups [0x2001, 0, 0xdb8, 0x85a3, 0x8a2e, 0x370, 0x7334, 1]))
     = Some ''2001:0:db8:85a3:8a2e:370:7334:1''
   \<and> map_option attempted (bwformat_in6_addr (FixedBufferWriter 64) DEFAULT
      (in6_of_groups [0x2001, 0, 0xdb8, 0x85a3, 0x8a2e, 0x370, 0x7334, 1]))
     \<noteq> Some ''2001::db8:85a3:8a2e:370:7334:1''"
proof -
  let ?a = "in6_of_groups [0x2001, 0, 0xdb8, 0x85a3, 0x8a2e, 0x370, 0x7334, 1]"
  have h1: "\<not> fst (ext_alignment DEFAULT)" by code_simp
  have n: "has_numeric_type DEFAULT \<noteq> None"
    by (simp add: has_numeric_type_eq DEFAULT_def DEFAULT_TYPE_def)
  have z: "zero_scan ?a = None" by code_simp
  have l: "in6_local_spec DEFAULT = DEFAULT\<lparr>s_min := 0, s_type := CHR ''x''\<rparr>"
    by (simp add: in6_local_spec_def has_numeric_type_eq DEFAULT_def DEFAULT_TYPE_def
        prop_data_def TYPE_CHAR_def NUMERIC_TYPE_CHAR_def)
  have t: "map (in6_group_text ?a (in6_local_spec DEFAULT)) [0..<8] =
             [''2001'', ''0'', ''db8'', ''85a3'', ''8a2e'', ''370'', ''7334'', ''1'']"
    unfolding l by code_simp
  have "bwformat_in6_addr (FixedBufferWriter 64) DEFAULT ?a =
          Some (bw_write (FixedBufferWriter 64) ''2001:0:db8:85a3:8a2e:370:7334:1'')"
    unfolding bwformat_in6_addr_pieces [OF h1 n] z in6_pieces_None t by simp
  then show ?thesis by (simp add: FixedBufferWriter_def)
qed

section \<open>Sign-aligned padding\<close>

lemma is_sign_minus [simp]: "is_sign CHR ''-'' = Some True"
  by (simp add: is_sign_Some sign_entry_def prop_data_def SIGN_CHAR_def)

text \<open>
  C9.  Under SignAligned alignment, content that begins with a sign character (one the
  property table classifies as such) and is shorter than the minimum width is rendered
  as the sign character, then the fill characters that make up the width, then the rest
  of the content; so it is when the alignment renderer copies it from a scratch writer,
  and when the integer formatter renders a negative number whose text it is.
\<close>

theorem sign_aligned_puts_fill_after_sign:
  assumes "is_sign c = Some True" and "s_align spec = SIGN" and "length (c # rest) < s_min spec"
  shows "render_aligned spec (c # rest) =
           c # replicate (s_min spec - length (c # rest)) (s_fill spec) @ rest
       \<and> Adjust_Alignment w spec (bw_write (FixedBufferWriter n) (c # rest)) =
           bw_write w (c # replicate (s_min spec - length (c # rest)) (s_fill spec) @ rest)
       \<and> (integer_text spec m True = c # rest \<longrightarrow>
            Format_Integer w spec m True =
              bw_write w (c # replicate (s_min spec - length (c # rest)) (s_fill spec) @ rest))"
  using assms
  by (simp add: render_aligned_def Adjust_Alignment_def Format_Integer_def FixedBufferWriter_def
      Let_def is_sign_Some)

theorem sign_aligned_puts_fill_after_sign_witness:
  "is_sign CHR ''-'' = Some True
   \<and> s_align (DEFAULT\<lparr>s_fill := CHR ''0'', s_align := SIGN, s_min := 4\<rparr>) = SIGN
   \<and> length ''-7'' < s_min (DEFAULT\<lparr>s_fill := CHR ''0'', s_align := SIGN, s_min := 4\<rparr>)
   \<and> render_aligned (DEFAULT\<lparr>s_fill := CHR ''0'', s_align := SIGN, s_min := 4\<rparr>) ''-7'' = ''-007''
   \<and> attempted (bwformat_signed (FixedBufferWriter 16)
        (DEFAULT\<lparr>s_fill := CHR ''0'', s_align := SIGN, s_min := 4\<rparr>) (- 7 :: 32 word)) = ''-007''
   \<and> map_option attempted
         (print (FixedBufferWriter 16) no_names ''{:0=4}'' (Get_Arg_Formatter_Array [Arg_int (- 7)]))
        = Some ''-007''"
proof -
  let ?spec = "DEFAULT\<lparr>s_fill := CHR ''0'', s_align := SIGN, s_min := 4\<rparr>"
  have h1: "is_sign CHR ''-'' = Some True" by simp
  have h2: "s_align ?spec = SIGN" by simp
  have h3: "length ''-7'' < s_min ?spec" by simp
  have a: "render_aligned ?spec ''-7'' = ''-007''"
    using sign_aligned_puts_fill_after_sign [OF h1 h2 h3, THEN conjunct1]
    by (simp add: numeral_2_eq_2)
  have b: "attempted (bwformat_signed (FixedBufferWriter 16) ?spec (- 7 :: 32 word)) = ''-007''"
    by code_simp
  have c: "map_option attempted
             (print (FixedBufferWriter 16) no_names ''{:0=4}'' (Get_Arg_Formatter_Array [Arg_int (- 7)]))
           = Some ''-007''"
    by code_simp
  show ?thesis by (intro conjI h1 h2 h3 a b c)
qed

section \<open>The zero-padded form of an IPv4 address\<close>

lemma octet_unat:
  fixes h :: "32 word"
  shows "unat (ucast (drop_bit n h AND 0xFF) :: 8 word) = (unat h div 2 ^ n) mod 256"
proof -
  have m: "(255 :: nat) = mask 8" by (simp add: mask_eq_exp_minus_1)
  have "unat (drop_bit n h AND 0xFF) = drop_bit n (unat h) AND 255"
    by (simp add: unsigned_and_eq unat_drop_bit_eq)
  also have "\<dots> = (unat h div 2 ^ n) mod 256"
    unfolding m by (simp add: take_bit_eq_mask [symmetric] take_bit_eq_mod drop_bit_eq_div)
  finally show ?thesis
    by (simp add: unsigned_ucast_eq take_bit_eq_mod)
qed

lemma digit_of_decimal: "d < 10 \<Longrightarrow> digit_of True d = digit_of False d"
proof -
  assume "d < 10"
  then have "d = 0 \<or> d = 1 \<or> d = 2 \<or> d = 3 \<or> d = 4 \<or> d = 5 \<or> d = 6 \<or> d = 7 \<or> d = 8 \<or> d = 9"
    by arith
  then show ?thesis by (elim disjE) (simp_all add: digit_of_def)
qed

lemma to_radix_decimal_True: "to_radix 10 True n = to_radix 10 False n"
proof (induction n rule: less_induct)
  case (less n)
  show ?case
  proof (cases "n < 10")
    case True
    then show ?thesis
      by (simp add: to_radix.simps [of 10 True n] to_radix.simps [of 10 False n] digit_of_decimal)
  next
    case False
    then have "to_radix 10 True (n div 10) = to_radix 10 False (n div 10)"
      using less.IH [of "n div 10"] by simp
    then show ?thesis using False
      by (simp add: to_radix.simps [of 10 True n] to_radix.simps [of 10 False n] digit_of_decimal)
  qed
qed

lemma to_radix_decimal: "to_radix 10 upper n = to_radix 10 False n"
  by (cases upper) (simp_all add: to_radix_decimal_True)

lemma radix_lead_decimal: "radix_of t = 10 \<Longrightarrow> radix_lead t = []"
  by (auto simp add: radix_of_def radix_lead_def split: if_splits)

lemma integer_text_decimal:
  "radix_of (s_type spec) = 10 \<Longrightarrow> s_sign spec = CHR ''-'' \<Longrightarrow>
   integer_text spec n False = to_radix 10 False n"
  using to_radix_decimal [of "upper_entry (s_type spec)" n]
  by (simp add: integer_text_def radix_lead_decimal)

lemma bwformat_unsigned_octet:
  assumes "radix_of (s_type local_spec) = 10" and "s_sign local_spec = CHR ''-''"
    and "s_min local_spec = 3" and "s_align local_spec = RIGHT" and "3 \<le> s_max local_spec"
    and "n < 256"
  shows "bwformat_unsigned w local_spec n = bw_write w (octet_field (s_fill local_spec) n)"
proof -
  have "n < 10 ^ 3" using assms(6) by simp
  then have len: "length (to_radix 10 False n) \<le> 3"
    by (intro to_radix_length_pow) simp_all
  have "render_aligned local_spec (to_radix 10 False n) = octet_field (s_fill local_spec) n"
    using len assms(3-5) by (auto simp add: render_aligned_def octet_field_def Let_def)
  then show ?thesis
    using assms(1,2) by (simp add: bwformat_unsigned_text integer_text_decimal)
qed

text \<open>
  C6 (as amended).  For an IPv4 address rendered with the zero-pad extension (an extension
  that begins with \<^verbatim>\<open>=\<close>, pad character \<^verbatim>\<open>0\<close>; or a fill character other than \<^verbatim>\<open>=\<close>
  followed by \<^verbatim>\<open>=\<close>, pad character the fill character), by a specifier whose type
  selects decimal digits (any type other than \<^verbatim>\<open>x\<close>, \<^verbatim>\<open>X\<close>, \<^verbatim>\<open>o\<close>, \<^verbatim>\<open>b\<close>, \<^verbatim>\<open>B\<close>), with
  the default sign style and a maximum width of at least three: each of the four octets,
  highest first, is rendered as an unsigned decimal integer right-aligned to the minimum
  width 3 with the pad character, and the octets are separated by \<^verbatim>\<open>.\<close>
\<close>

theorem ip4_octets_are_padded_to_three:
  assumes "(s_ext spec \<noteq> [] \<and> hd (s_ext spec) = CHR ''='' \<and> pad = CHR ''0'')
           \<or> (1 < length (s_ext spec) \<and> hd (s_ext spec) \<noteq> CHR ''='' \<and> s_ext spec ! 1 = CHR ''=''
                \<and> pad = hd (s_ext spec))"
    and "radix_of (s_type spec) = 10" and "s_sign spec = CHR ''-''" and "3 \<le> s_max spec"
    and "octet = (\<lambda>k. (unat (host_order addr) div 2 ^ (8 * k)) mod 256)"
  shows "bwformat_IP4Addr w spec addr =
           bw_write w (octet_field pad (octet 3) @ ''.'' @ octet_field pad (octet 2) @ ''.''
                       @ octet_field pad (octet 1) @ ''.'' @ octet_field pad (octet 0))"
proof -
  have al: "ext_alignment spec = (True, spec\<lparr>s_fill := pad\<rparr>)"
    using assms(1) by (cases "s_ext spec") (auto simp add: ext_alignment_def)
  let ?ls = "spec\<lparr>s_fill := pad, s_min := 3, s_align := RIGHT\<rparr>"
  have F: "\<And>w' n. n < 256 \<Longrightarrow> bwformat_unsigned w' ?ls n = bw_write w' (octet_field pad n)"
    using bwformat_unsigned_octet [of ?ls] assms(2-4) by simp
  have o: "\<And>k. octet k < 256" by (simp add: assms(5))
  have h0: "unat (ucast (host_order addr AND 0xFF) :: 8 word) = octet 0"
    using octet_unat [of 0 "host_order addr"] by (simp add: assms(5))
  have h1: "unat (ucast (drop_bit 8 (host_order addr) AND 0xFF) :: 8 word) = octet 1"
    using octet_unat [of 8 "host_order addr"] by (simp add: assms(5))
  have h2: "unat (ucast (drop_bit 16 (host_order addr) AND 0xFF) :: 8 word) = octet 2"
    using octet_unat [of 16 "host_order addr"] by (simp add: assms(5))
  have h3: "unat (ucast (drop_bit 24 (host_order addr) AND 0xFF) :: 8 word) = octet 3"
    using octet_unat [of 24 "host_order addr"] by (simp add: assms(5))
  show ?thesis
    unfolding bwformat_IP4Addr_def al Let_def h0 h1 h2 h3
    by (simp add: F o)
qed

theorem ip4_octets_are_padded_to_three_witness:
  "s_ext (DEFAULT\<lparr>s_ext := ''=''\<rparr>) \<noteq> [] \<and> hd (s_ext (DEFAULT\<lparr>s_ext := ''=''\<rparr>)) = CHR ''=''
   \<and> radix_of (s_type (DEFAULT\<lparr>s_ext := ''=''\<rparr>)) = 10
   \<and> s_sign (DEFAULT\<lparr>s_ext := ''=''\<rparr>) = CHR ''-'' \<and> 3 \<le> s_max (DEFAULT\<lparr>s_ext := ''=''\<rparr>)
   \<and> bwformat_IP4Addr (FixedBufferWriter 64) (DEFAULT\<lparr>s_ext := ''=''\<rparr>) (IP4Addr 0x01020304)
       = bw_write (FixedBufferWriter 64) ''001.002.003.004''"
proof -
  let ?spec = "DEFAULT\<lparr>s_ext := ''=''\<rparr>"
  let ?octet = "\<lambda>k. (unat (host_order (IP4Addr 0x01020304)) div 2 ^ (8 * k)) mod 256"
  have e1: "s_ext ?spec \<noteq> []" and e2: "hd (s_ext ?spec) = CHR ''=''" by simp_all
  have h1: "(s_ext ?spec \<noteq> [] \<and> hd (s_ext ?spec) = CHR ''='' \<and> CHR ''0'' = CHR ''0'')
           \<or> (1 < length (s_ext ?spec) \<and> hd (s_ext ?spec) \<noteq> CHR ''='' \<and> s_ext ?spec ! 1 = CHR ''=''
                \<and> CHR ''0'' = hd (s_ext ?spec))" by simp
  have h2: "radix_of (s_type ?spec) = 10" by code_simp
  have h3: "s_sign ?spec = CHR ''-''" by code_simp
  have h4: "3 \<le> s_max ?spec" by code_simp
  have o: "?octet 3 = 1" "?octet 2 = 2" "?octet 1 = 3" "?octet 0 = 4" by simp_all
  have f: "octet_field CHR ''0'' 1 = ''001''" "octet_field CHR ''0'' 2 = ''002''"
    "octet_field CHR ''0'' 3 = ''003''" "octet_field CHR ''0'' 4 = ''004''" by code_simp+
  have "bwformat_IP4Addr (FixedBufferWriter 64) ?spec (IP4Addr 0x01020304)
       = bw_write (FixedBufferWriter 64) ''001.002.003.004''"
    using ip4_octets_are_padded_to_three [where spec = ?spec and pad = "CHR ''0''"
        and addr = "IP4Addr 0x01020304" and w = "FixedBufferWriter 64", OF h1 h2 h3 h4 refl]
    unfolding o f by simp
  then show ?thesis using e1 e2 h2 h3 h4 by blast
qed

text \<open>
  The claim as stated fails for the radix: the octets are formatted with the type of the
  specifier, so under the type \<^verbatim>\<open>x\<close> the address 192.168.1.254 with the \<^verbatim>\<open>=\<close>
  extension is rendered with hexadecimal octets.
\<close>

theorem ip4_hex_octets_counterexample:
  "bwformat_IP4Addr (FixedBufferWriter 64) (DEFAULT\<lparr>s_type := CHR ''x'', s_ext := ''=''\<rparr>)
      (IP4Addr 0xC0A801FE) = bw_write (FixedBufferWriter 64) ''0c0.0a8.001.0fe''
   \<and> bwformat_IP4Addr (FixedBufferWriter 64) (DEFAULT\<lparr>s_type := CHR ''x'', s_ext := ''=''\<rparr>)
      (IP4Addr 0xC0A801FE) \<noteq> bw_write (FixedBufferWriter 64) ''192.168.001.254''"
  by code_simp

section \<open>The parts of a socket address\<close>

lemma ext_alignment_pad:
  "ext_alignment spec =
     (pad_char (s_ext spec) \<noteq> None,
      (case pad_char (s_ext spec) of Some c \<Rightarrow> spec\<lparr>s_fill := c\<rparr> | None \<Rightarrow> spec))"
  by (cases "s_ext spec"; cases "tl (s_ext spec)") (auto simp add: ext_alignment_def pad_char_def)

lemma sockaddr_fill_prefix_pad:
  "sockaddr_fill_prefix spec =
     (pad_char (s_ext spec) \<noteq> None,
      (case pad_char (s_ext spec) of Some c \<Rightarrow> c | None \<Rightarrow> CHR ''0''),
      spec\<lparr>s_ext := strip_pad (s_ext spec)\<rparr>)"
  by (cases "s_ext spec"; cases "tl (s_ext spec)")
     (auto simp add: sockaddr_fill_prefix_def pad_char_def strip_pad_def)

lemma render_aligned_ext [simp]: "render_aligned (spec\<lparr>s_ext := e\<rparr>) raw = render_aligned spec raw"
  by (simp add: render_aligned_def Let_def split: Align.split)

lemma integer_text_ext [simp]: "integer_text (spec\<lparr>s_ext := e\<rparr>) = integer_text spec"
  by (intro ext) (simp add: integer_text_def)

lemma number_text_ext [simp]: "number_text (spec\<lparr>s_ext := e\<rparr>) = number_text spec"
  by (intro ext) (simp add: number_text_def)

lemma number_text_cong:
  assumes "s_fill a = s_fill b" and "s_sign a = s_sign b" and "s_align a = s_align b"
    and "s_type a = s_type b" and "s_radix_lead_p a = s_radix_lead_p b"
    and "s_min a = s_min b" and "s_max a = s_max b"
  shows "number_text a = number_text b"
proof -
  have "integer_text a = integer_text b"
    by (intro ext) (simp add: integer_text_def assms)
  moreover have "render_aligned a = render_aligned b"
    by (intro ext) (simp add: render_aligned_def Let_def assms split: Align.split list.split)
  ultimately show ?thesis by (intro ext) (simp add: number_text_def)
qed

lemma number_text_min_zero:
  "number_text (spec\<lparr>s_min := 0\<rparr>) n = take (s_max spec) (integer_text spec n False)"
  by (simp add: number_text_def render_aligned_def integer_text_def)

lemma in6_output_fold:
  "foldl (in6_output_step addr local_spec best) w xs =
   bw_write w (concat (map (in6_piece (in6_group_text addr local_spec) best) xs))"
  by (rule foldl_bw_write) (rule in6_output_step_piece)

lemma bwformat_unsigned_number: "bwformat_unsigned w spec n = bw_write w (number_text spec n)"
  by (simp add: bwformat_unsigned_def Format_Integer_def number_text_def)

lemma bwformat_IP4Addr_text: "bwformat_IP4Addr w spec a = bw_write w (ip4_text spec a)"
proof -
  have ls: "(if pad_char (s_ext spec) \<noteq> None
             then (case pad_char (s_ext spec) of Some c \<Rightarrow> spec\<lparr>s_fill := c\<rparr> | None \<Rightarrow> spec)
                    \<lparr>s_min := 3, s_align := RIGHT\<rparr>
             else (case pad_char (s_ext spec) of Some c \<Rightarrow> spec\<lparr>s_fill := c\<rparr> | None \<Rightarrow> spec)
                    \<lparr>s_min := 0\<rparr>) = element_spec 3 spec"
    by (simp add: element_spec_def split: option.split)
  have h0: "unat (ucast (host_order a AND 0xFF) :: 8 word) = (unat (host_order a) div 2 ^ (8 * 0)) mod 256"
    using octet_unat [of 0 "host_order a"] by simp
  have h1: "unat (ucast (drop_bit 8 (host_order a) AND 0xFF) :: 8 word) = (unat (host_order a) div 2 ^ (8 * 1)) mod 256"
    using octet_unat [of 8 "host_order a"] by simp
  have h2: "unat (ucast (drop_bit 16 (host_order a) AND 0xFF) :: 8 word) = (unat (host_order a) div 2 ^ (8 * 2)) mod 256"
    using octet_unat [of 16 "host_order a"] by simp
  have h3: "unat (ucast (drop_bit 24 (host_order a) AND 0xFF) :: 8 word) = (unat (host_order a) div 2 ^ (8 * 3)) mod 256"
    using octet_unat [of 24 "host_order a"] by simp
  show ?thesis
    unfolding bwformat_IP4Addr_def ext_alignment_pad Let_def split_conv ls ip4_text_def h0 h1 h2 h3
    by (simp add: bwformat_unsigned_number)
qed

lemma in6_group_text_number:
  "in6_group_text addr ls = (\<lambda>i. number_text ls (unat (quad_value addr i)))"
  by (intro ext) (simp add: in6_group_text_def number_text_def)

lemma bwformat_in6_addr_text:
  assumes "has_numeric_type spec \<noteq> None"
  shows "bwformat_in6_addr w spec a = Some (bw_write w (in6_text spec a))"
proof -
  obtain b where b: "has_numeric_type spec = Some b" using assms by auto
  show ?thesis
  proof (cases "pad_char (s_ext spec)")
    case None
    let ?ls = "(if b then spec\<lparr>s_min := 0\<rparr> else spec\<lparr>s_min := 0, s_type := CHR ''x''\<rparr>)"
    have code: "bwformat_in6_addr w spec a =
                  Some (foldl (in6_output_step a ?ls (zero_scan a)) w [0..<8])"
      by (simp add: bwformat_in6_addr_def ext_alignment_pad None b)
    show ?thesis
    proof (cases "zero_scan a")
      case no: None
      then have "longest_zero_run a = None" by (simp add: zero_scan_longest_zero_run [symmetric])
      then show ?thesis
        unfolding code no
        by (simp add: in6_output_fold in6_pieces_None in6_text_def element_spec_def None b
            in6_group_text_number cong: if_cong)
    next
      case (Some r)
      obtain l u where r: "r = (l, u)" by (cases r)
      have lu: "l < u" "u < 8" using zero_scan_Some [of a l u] Some r by simp_all
      have "longest_zero_run a = Some (l, u)"
        using Some r by (simp add: zero_scan_longest_zero_run [symmetric])
      then show ?thesis
        unfolding code Some r
        by (simp add: in6_output_fold in6_pieces_Some [OF lu] in6_text_def element_spec_def None b
            in6_group_text_number Let_def cong: if_cong)
    qed
  next
    case (Some c)
    let ?ls = "(if b then spec\<lparr>s_fill := c, s_min := 4, s_align := RIGHT\<rparr>
                else spec\<lparr>s_fill := c, s_min := 4, s_align := RIGHT, s_type := CHR ''x''\<rparr>)"
    have code: "bwformat_in6_addr w spec a = Some (foldl (in6_output_step a ?ls None) w [0..<8])"
      by (simp add: bwformat_in6_addr_def ext_alignment_pad Some b)
    show ?thesis
      unfolding code
      by (simp add: in6_output_fold in6_pieces_None in6_text_def element_spec_def Some b
          in6_group_text_number cong: if_cong)
  qed
qed

lemma number_text_DEFAULT:
  assumes "n < 10 ^ 10"
  shows "number_text (DEFAULT\<lparr>s_idx := k\<rparr>) n = to_radix 10 False n"
proof -
  have "length (to_radix 10 False n) \<le> 10"
    using assms by (intro to_radix_length_pow) simp_all
  moreover have "integer_text (DEFAULT\<lparr>s_idx := k\<rparr>) n False = to_radix 10 False n"
    by (simp add: integer_text_def DEFAULT_def DEFAULT_TYPE_def radix_of_def upper_entry_def
        prop_data_def TYPE_CHAR_def UPPER_TYPE_CHAR_def)
  ultimately show ?thesis
    by (simp add: number_text_def render_aligned_fits DEFAULT_def UINT_MAX_def)
qed

lemma not_ip_text:
  assumes "n < 10 ^ 10"
  shows "print w no_names ''*Not IP address [{}]*'' [\<lambda>lw sp. Some (bwformat_unsigned lw sp n)] =
         Some (bw_write w (''*Not IP address ['' @ to_radix 10 False n @ '']*''))"
proof -
  have t: "tokenize ''*Not IP address [{}]*'' [] None =
             [(''*Not IP address ['', DEFAULT), ('']*'', NO_SPEC)]"
    by (simp add: Spec_parse_Nil)
  have len: "length (to_radix 10 False n) \<le> 10"
    using assms by (intro to_radix_length_pow) simp_all
  then have r: "render_aligned DEFAULT (to_radix 10 False n) = to_radix 10 False n"
    by (intro render_aligned_fits) (simp_all add: DEFAULT_def UINT_MAX_def)
  have nm: "s_name DEFAULT = []" by (simp add: DEFAULT_def)
  have s1: "print_nv_step no_names [\<lambda>lw sp. Some (bwformat_unsigned lw sp n)] (w, 0)
              (''*Not IP address ['', DEFAULT) =
            Some (bw_write w (''*Not IP address ['' @ to_radix 10 False n), 1)"
    unfolding print_nv_step_unindexed [OF has_valid_type_DEFAULT nm, of 0 "[\<lambda>lw sp. Some (bwformat_unsigned lw sp n)]",
        simplified]
    by (simp add: Let_def bwformat_unsigned_number number_text_DEFAULT [OF assms] extent_def
        Adjust_Alignment_def FixedBufferWriter_def r)
  show ?thesis
    unfolding print_def t print_nv_def
    by (simp add: s1 print_nv_step_invalid)
qed

lemma foldl_sockaddr_flag:
  "foldl sockaddr_flag (a, p, f) ext =
     (a \<or> (\<exists>c \<in> set ext. c = CHR ''a'' \<or> c = CHR ''A''),
      p \<or> (\<exists>c \<in> set ext. c = CHR ''p'' \<or> c = CHR ''P''),
      f \<or> (\<exists>c \<in> set ext. c = CHR ''f'' \<or> c = CHR ''F''))"
  by (induction ext arbitrary: a p f) (auto simp add: sockaddr_flag_def)

lemma sockaddr_flags_selected: "sockaddr_flags local_spec = sockaddr_selected (s_ext local_spec)"
  by (simp add: sockaddr_flags_def sockaddr_selected_def foldl_sockaddr_flag)

lemma sockaddr_addr_part_text:
  assumes "of_char (s_type spec) < (128 :: nat)"
  shows "sockaddr_addr_part w spec addr port_p =
     Some (bw_write w
       ((if sa_family addr = AF_INET6 \<and> port_p then ''['' @ endpoint_addr_text spec addr @ '']''
         else endpoint_addr_text spec addr)
        @ (if port_p then '':'' else [])))"
proof -
  have nt: "has_numeric_type spec \<noteq> None"
    using assms by (simp add: has_numeric_type_eq)
  have "unat (sa_family addr) < 2 ^ LENGTH(16)" by (rule unsigned_less)
  then have fam: "unat (sa_family addr) < 10 ^ 10" by simp
  show ?thesis
    by (simp add: sockaddr_addr_part_def endpoint_addr_text_def bwformat_IP4Addr_text
        bwformat_in6_addr_text [OF nt] not_ip_text [OF fam] AF_INET_def AF_INET6_def)
qed

lemma sockaddr_port_part_text:
  "fst (sockaddr_port_part w (spec\<lparr>s_ext := strip_pad (s_ext spec)\<rparr>) addr
          (pad_char (s_ext spec) \<noteq> None)
          (case pad_char (s_ext spec) of Some c \<Rightarrow> c | None \<Rightarrow> CHR ''0'')) =
   bw_write w (endpoint_port_text spec addr)"
proof (cases "pad_char (s_ext spec)")
  case None
  have "number_text (spec\<lparr>s_ext := strip_pad (s_ext spec), s_min := 0\<rparr>) =
        number_text (spec\<lparr>s_min := 0\<rparr>)"
    by (rule number_text_cong) simp_all
  then show ?thesis
    by (simp add: sockaddr_port_part_def Let_def bwformat_unsigned_number endpoint_port_text_def
        element_spec_def None)
next
  case (Some c)
  have "number_text (spec\<lparr>s_ext := strip_pad (s_ext spec), s_min := 5, s_fill := c, s_align := RIGHT\<rparr>) =
        number_text (spec\<lparr>s_fill := c, s_min := 5, s_align := RIGHT\<rparr>)"
    by (rule number_text_cong) simp_all
  then show ?thesis
    by (simp add: sockaddr_port_part_def Let_def bwformat_unsigned_number endpoint_port_text_def
        element_spec_def Some)
qed

lemma sockaddr_family_part_text:
  assumes "of_char (s_type spec) < (128 :: nat)"
    and "s_max ls = s_max spec" and "s_sign ls = s_sign spec"
    and "s_radix_lead_p ls = s_radix_lead_p spec" and "s_type ls = s_type spec"
  shows "sockaddr_family_part w spec ls addr sep_p =
     Some (bw_write w ((if sep_p then '' '' else []) @ endpoint_family_text spec addr))"
proof -
  obtain b where b: "has_numeric_type spec = Some b"
    using assms(1) by (simp add: has_numeric_type_eq)
  have "integer_text ls = integer_text spec"
    using assms(3-5) by (intro ext) (simp add: integer_text_def)
  then have "\<And>n. number_text (ls\<lparr>s_min := 0\<rparr>) n = number_text (spec\<lparr>s_min := 0\<rparr>) n"
    using assms(2) by (simp add: number_text_min_zero)
  then show ?thesis
    by (simp add: sockaddr_family_part_def Let_def b bwformat_unsigned_number bwformat_sv_def
        endpoint_family_text_def)
qed

text \<open>
  C5 (as amended).  For every endpoint rendered by the composite formatter with a 7-bit
  type character other than the pointer types \<^verbatim>\<open>p\<close> and \<^verbatim>\<open>P\<close>, the output is the text of
  the selected sub-parts, in the order address, port, family: when the extension, with
  its pad prefix stripped, is empty, the address and the port; when it is not, exactly
  the parts selected by the flag characters \<^verbatim>\<open>a\<close>, \<^verbatim>\<open>p\<close>, \<^verbatim>\<open>f\<close> (in either case).  The
  address is followed by \<^verbatim>\<open>:\<close> when a port is emitted, an IPv6 address is surrounded by
  square brackets if and only if a port is also emitted, and the family is preceded by a
  space when another part is emitted.
\<close>

theorem sockaddr_emits_selected_parts:
  assumes "s_type spec \<noteq> CHR ''p''" and "s_type spec \<noteq> CHR ''P''"
    and "of_char (s_type spec) < (128 :: nat)"
    and "sockaddr_selected (strip_pad (s_ext spec)) = (addr_p, port_p, family_p)"
    and "address = endpoint_addr_text spec addr"
  shows "bwformat_sockaddr w spec ptr addr =
     Some (bw_write w
       ((if addr_p
         then (if sa_family addr = AF_INET6 \<and> port_p then ''['' @ address @ '']'' else address)
              @ (if port_p then '':'' else [])
         else [])
        @ (if port_p then endpoint_port_text spec addr else [])
        @ (if family_p
           then (if addr_p \<or> port_p then '' '' else []) @ endpoint_family_text spec addr
           else [])))"
proof -
  let ?ls = "spec\<lparr>s_ext := strip_pad (s_ext spec)\<rparr>"
  define fp where "fp = (pad_char (s_ext spec) \<noteq> None)"
  define fc where "fc = (case pad_char (s_ext spec) of Some c \<Rightarrow> c | None \<Rightarrow> CHR ''0'')"
  have pre: "sockaddr_fill_prefix spec = (fp, fc, ?ls)"
    unfolding fp_def fc_def by (rule sockaddr_fill_prefix_pad)
  have fl: "sockaddr_flags ?ls = (addr_p, port_p, family_p)"
    using assms(4) by (simp add: sockaddr_flags_selected)
  have A: "\<And>w'. sockaddr_addr_part w' spec addr port_p =
     Some (bw_write w'
       ((if sa_family addr = AF_INET6 \<and> port_p then ''['' @ address @ '']'' else address)
        @ (if port_p then '':'' else [])))"
    unfolding assms(5) by (rule sockaddr_addr_part_text [OF assms(3)])
  have P: "\<And>w'. fst (sockaddr_port_part w' ?ls addr fp fc) = bw_write w' (endpoint_port_text spec addr)"
    unfolding fp_def fc_def by (rule sockaddr_port_part_text)
  have F1: "\<And>w' w'' sep. sockaddr_family_part w' spec (snd (sockaddr_port_part w'' ?ls addr fp fc)) addr sep =
     Some (bw_write w' ((if sep then '' '' else []) @ endpoint_family_text spec addr))"
    by (intro sockaddr_family_part_text assms(3)) (simp_all add: sockaddr_port_part_def Let_def)
  have F2: "\<And>w' sep. sockaddr_family_part w' spec ?ls addr sep =
     Some (bw_write w' ((if sep then '' '' else []) @ endpoint_family_text spec addr))"
    by (intro sockaddr_family_part_text assms(3)) simp_all
  show ?thesis
    using assms(1,2)
    by (simp add: bwformat_sockaddr_def pre fl Let_def split_def A P F1 F2)
qed

theorem sockaddr_emits_selected_parts_witness:
  "s_type DEFAULT \<noteq> CHR ''p'' \<and> s_type DEFAULT \<noteq> CHR ''P''
   \<and> of_char (s_type DEFAULT) < (128 :: nat)
   \<and> sockaddr_selected (strip_pad []) = (True, True, False)
   \<and> sockaddr_selected (strip_pad ''ap'') = (True, True, False)
   \<and> sockaddr_selected (strip_pad ''a'') = (True, False, False)
   \<and> sockaddr_selected (strip_pad ''=pf'') = (False, True, True)
   \<and> bwformat_sockaddr (FixedBufferWriter 64) (DEFAULT\<lparr>s_ext := ''ap''\<rparr>) 0
        \<lparr>sa_family = AF_INET, host_order_port = 80, sin_addr = 0xC0000201, sin6_addr = []\<rparr>
       = Some (bw_write (FixedBufferWriter 64) ''192.0.2.1:80'')
   \<and> bwformat_sockaddr (FixedBufferWriter 64) (DEFAULT\<lparr>s_ext := ''ap''\<rparr>) 0
        \<lparr>sa_family = AF_INET6, host_order_port = 80, sin_addr = 0,
           sin6_addr = in6_of_groups [0x2001, 0xdb8, 0, 0, 0, 0, 0, 1]\<rparr>
       = Some (bw_write (FixedBufferWriter 64) ''[2001:db8::1]:80'')
   \<and> bwformat_sockaddr (FixedBufferWriter 64) (DEFAULT\<lparr>s_ext := ''a''\<rparr>) 0
        \<lparr>sa_family = AF_INET6, host_order_port = 80, sin_addr = 0,
           sin6_addr = in6_of_groups [0x2001, 0xdb8, 0, 0, 0, 0, 0, 1]\<rparr>
       = Some (bw_write (FixedBufferWriter 64) ''2001:db8::1'')
   \<and> bwformat_sockaddr (FixedBufferWriter 64) (DEFAULT\<lparr>s_ext := ''=pf''\<rparr>) 0
        \<lparr>sa_family = AF_INET, host_order_port = 80, sin_addr = 0xC0000201, sin6_addr = []\<rparr>
       = Some (bw_write (FixedBufferWriter 64) ''00080 ipv4'')
   \<and> bwformat_sockaddr (FixedBufferWriter 64) DEFAULT 0
        \<lparr>sa_family = AF_INET6, host_order_port = 80, sin_addr = 0,
           sin6_addr = in6_of_groups [0x2001, 0xdb8, 0, 0, 0, 0, 0, 1]\<rparr>
       = Some (bw_write (FixedBufferWriter 64) ''[2001:db8::1]:80'')"
proof -
  let ?W = "FixedBufferWriter 64"
  let ?a4 = "\<lparr>sa_family = AF_INET, host_order_port = 80, sin_addr = 0xC0000201, sin6_addr = []\<rparr>"
  let ?a6 = "\<lparr>sa_family = AF_INET6, host_order_port = 80, sin_addr = 0,
               sin6_addr = in6_of_groups [0x2001, 0xdb8, 0, 0, 0, 0, 0, 1]\<rparr>"
  have ty: "\<And>e. s_type (DEFAULT\<lparr>s_ext := e\<rparr>) \<noteq> CHR ''p''"
    "\<And>e. s_type (DEFAULT\<lparr>s_ext := e\<rparr>) \<noteq> CHR ''P''"
    "\<And>e. of_char (s_type (DEFAULT\<lparr>s_ext := e\<rparr>)) < (128 :: nat)"
    by (simp_all add: DEFAULT_def DEFAULT_TYPE_def)
  have d: "s_type DEFAULT \<noteq> CHR ''p''" "s_type DEFAULT \<noteq> CHR ''P''"
    "of_char (s_type DEFAULT) < (128 :: nat)"
    by (simp_all add: DEFAULT_def DEFAULT_TYPE_def)
  have s0: "sockaddr_selected (strip_pad []) = (True, True, False)" by code_simp
  have s1: "sockaddr_selected (strip_pad ''ap'') = (True, True, False)" by code_simp
  have s2: "sockaddr_selected (strip_pad ''a'') = (True, False, False)" by code_simp
  have s3: "sockaddr_selected (strip_pad ''=pf'') = (False, True, True)" by code_simp
  have e0: "s_ext DEFAULT = []" by (simp add: DEFAULT_def)
  have ne: "AF_INET \<noteq> AF_INET6" by (simp add: AF_INET_def AF_INET6_def)
  have t4: "endpoint_addr_text (DEFAULT\<lparr>s_ext := ''ap''\<rparr>) ?a4 = ''192.0.2.1''" by code_simp
  have t6: "endpoint_addr_text (DEFAULT\<lparr>s_ext := ''ap''\<rparr>) ?a6 = ''2001:db8::1''" by code_simp
  have t6a: "endpoint_addr_text (DEFAULT\<lparr>s_ext := ''a''\<rparr>) ?a6 = ''2001:db8::1''" by code_simp
  have t6d: "endpoint_addr_text DEFAULT ?a6 = ''2001:db8::1''" by code_simp
  have p4: "endpoint_port_text (DEFAULT\<lparr>s_ext := ''ap''\<rparr>) ?a4 = ''80''" by code_simp
  have p6: "endpoint_port_text (DEFAULT\<lparr>s_ext := ''ap''\<rparr>) ?a6 = ''80''" by code_simp
  have p6d: "endpoint_port_text DEFAULT ?a6 = ''80''" by code_simp
  have pp: "endpoint_port_text (DEFAULT\<lparr>s_ext := ''=pf''\<rparr>) ?a4 = ''00080''" by code_simp
  have ff: "endpoint_family_text (DEFAULT\<lparr>s_ext := ''=pf''\<rparr>) ?a4 = ''ipv4''" by code_simp
  have r1: "bwformat_sockaddr ?W (DEFAULT\<lparr>s_ext := ''ap''\<rparr>) 0 ?a4 = Some (bw_write ?W ''192.0.2.1:80'')"
    using sockaddr_emits_selected_parts [OF ty(1) ty(2) ty(3) _ refl, of "''ap''" True True False ?W 0 ?a4]
    by (simp add: s1 t4 p4 ne)
  have r2: "bwformat_sockaddr ?W (DEFAULT\<lparr>s_ext := ''ap''\<rparr>) 0 ?a6 = Some (bw_write ?W ''[2001:db8::1]:80'')"
    using sockaddr_emits_selected_parts [OF ty(1) ty(2) ty(3) _ refl, of "''ap''" True True False ?W 0 ?a6]
    by (simp add: s1 t6 p6)
  have r3: "bwformat_sockaddr ?W (DEFAULT\<lparr>s_ext := ''a''\<rparr>) 0 ?a6 = Some (bw_write ?W ''2001:db8::1'')"
    using sockaddr_emits_selected_parts [OF ty(1) ty(2) ty(3) _ refl, of "''a''" True False False ?W 0 ?a6]
    by (simp add: s2 t6a)
  have r4: "bwformat_sockaddr ?W (DEFAULT\<lparr>s_ext := ''=pf''\<rparr>) 0 ?a4 = Some (bw_write ?W ''00080 ipv4'')"
    using sockaddr_emits_selected_parts [OF ty(1) ty(2) ty(3) _ refl, of "''=pf''" False True True ?W 0 ?a4]
    by (simp add: s3 pp ff)
  have r5: "bwformat_sockaddr ?W DEFAULT 0 ?a6 = Some (bw_write ?W ''[2001:db8::1]:80'')"
    using sockaddr_emits_selected_parts [OF d(1) d(2) d(3) _ refl, of True True False ?W 0 ?a6]
    by (simp add: e0 s0 t6d p6d)
  show ?thesis by (intro conjI d s0 s1 s2 s3 r1 r2 r3 r4 r5)
qed

text \<open>
  The claim as stated fails for a specifier of pointer type: the formatter prints the
  pointer itself, and no sub-part of the endpoint, whatever the flags are.
\<close>

theorem sockaddr_pointer_type_counterexample:
  "bwformat_sockaddr (FixedBufferWriter 64) (DEFAULT\<lparr>s_type := CHR ''p'', s_ext := ''ap''\<rparr>) 4096
        \<lparr>sa_family = AF_INET, host_order_port = 80, sin_addr = 0xC0000201, sin6_addr = []\<rparr>
     = Some (bw_write (FixedBufferWriter 64) ''0x1000'')"
  by code_simp

text \<open>So it does for every endpoint and every extension.\<close>

lemma bwformat_sockaddr_pointer_type:
  "s_type spec = CHR ''p'' \<or> s_type spec = CHR ''P'' \<Longrightarrow>
   bwformat_sockaddr w spec ptr addr = Some (bwformat_ptr w spec ptr)"
  by (simp add: bwformat_sockaddr_def)

end
